theory Spec2Isabelle
  imports Main
begin

section \<open>Events (src/data/event.js)\<close>

text \<open>
  The decoded \<open>Event\<close> of src/data/event.js, field by field as its Flow type declares it.
  JavaScript numbers are kept abstract (type variable \<open>'n\<close>), and so is \<open>FieldRef\<close>
  (type variable \<open>'r\<close>), whose module ./field-ref is not part of the sources at hand.
  \<open>Maybe<A>\<close> is \<open>'a option\<close>. The components \<open>id\<close>, \<open>locale\<close> and \<open>fields\<close> carry a
  suffix: \<open>id\<close> is the identity function of HOL, \<open>locale\<close> is a keyword and
  \<open>fields\<close> is a name the record package uses itself.
\<close>

record 'n Location =
  lat :: 'n
  lon :: 'n

record ('n, 'r) EventFields =
  name :: string
  eventCategories :: "string list"
  audience :: "string list"
  startTime :: string
  endTime :: string
  location :: "'n Location"
  addressLine1 :: "string option"
  addressLine2 :: "string option"
  city :: "string option"
  postcode :: "string option"
  locationName :: string
  eventPriceLow :: 'n
  eventPriceHigh :: 'n
  accessibilityOptions :: "string list"
  eventDescription :: string
  accessibilityDetails :: "string option"
  email :: "string option"
  phone :: "string option"
  ticketingUrl :: "string option"
  venueDetails :: "string list"
  individualEventPicture :: 'r
  eventsListPicture :: 'r
  performances :: "'r list"
  recurrenceDates :: "string list"

record ('n, 'r) Event =
  contentType :: string
  id_ev :: string
  locale_ev :: string
  revision :: 'n
  fields_ev :: "('n, 'r) EventFields"

subsection \<open>The date library, as a parameter\<close>

text \<open>
  event.js imports \<open>set\<close>, \<open>diff\<close>, \<open>add\<close>, \<open>toFormat\<close> and two format constants from
  ../lib/date, under the local names \<open>setDate\<close>, \<open>diffDate\<close>, \<open>addToDate\<close> and
  \<open>formatDate\<close>. That module is not among the sources, so the functions of event.js take
  it as a parameter: a record of four functions. Dates are strings, as the Flow
  annotations of event.js say (\<open>recurrenceStartTime: string\<close>); the type of a
  difference of two dates is left open (\<open>'d\<close>).
\<close>

datatype Format = FORMAT_EUROPEAN_DATE | FORMAT_CONTENTFUL_ISO

text \<open>The object literal \<open>{ year, month, day }\<close> handed to \<open>setDate\<close>; a component that the
  destructuring of \<open>split("/")\<close> leaves \<open>undefined\<close> is \<open>None\<close>.\<close>

record DateParts =
  year :: "string option"
  month :: "string option"
  day :: "string option"

record 'd DateLib =
  setDate :: "string \<Rightarrow> DateParts \<Rightarrow> string"
  diffDate :: "string \<Rightarrow> string \<Rightarrow> 'd"
  addToDate :: "string \<Rightarrow> 'd \<Rightarrow> string"
  formatDate :: "string \<Rightarrow> Format \<Rightarrow> string"

definition formatEuropeanDate :: "'d DateLib \<Rightarrow> string \<Rightarrow> string" where
  "formatEuropeanDate L v = formatDate L v FORMAT_EUROPEAN_DATE"

subsection \<open>JavaScript and Ramda helpers\<close>

text \<open>\<open>String.prototype.split\<close> with a one-character separator: the pieces between the
  separators, always at least one piece.\<close>

fun split_on :: "char \<Rightarrow> string \<Rightarrow> string list" where
  "split_on sep [] = [[]]"
| "split_on sep (c # cs) =
     (if c = sep then [] # split_on sep cs
      else (case split_on sep cs of
              [] \<Rightarrow> [[c]]
            | p # ps \<Rightarrow> (c # p) # ps))"

text \<open>Array destructuring \<open>[a, b, c] = xs\<close>: a position past the end gives \<open>undefined\<close>.\<close>

fun nth_opt :: "'a list \<Rightarrow> nat \<Rightarrow> 'a option" where
  "nth_opt [] n = None"
| "nth_opt (x # xs) 0 = Some x"
| "nth_opt (x # xs) (Suc n) = nth_opt xs n"

text \<open>\<open>R.uniq\<close>: walks the list from the left and keeps an element when it has not been
  seen before, so the first occurrence of each value survives, in the order of the input.
  (\<open>remdups\<close> of HOL keeps the last occurrence instead.)\<close>

fun uniq_from :: "'a list \<Rightarrow> 'a list \<Rightarrow> 'a list" where
  "uniq_from seen [] = []"
| "uniq_from seen (x # xs) =
     (if x \<in> set seen then uniq_from seen xs else x # uniq_from (x # seen) xs)"

definition uniq :: "'a list \<Rightarrow> 'a list" where
  "uniq xs = uniq_from [] xs"

text \<open>\<open>Array.prototype.slice(1)\<close>: everything but the first element; the empty array stays
  empty.\<close>

definition slice1 :: "'a list \<Rightarrow> 'a list" where
  "slice1 xs = drop 1 xs"

subsection \<open>Recurrence expansion\<close>

text \<open>
  \<open>generateRecurringEvent\<close>: \<open>R.mergeDeepRight(event, { fields: {...}, id })\<close> builds a new
  object. Both \<open>event.fields\<close> and the right-hand \<open>fields\<close> are plain objects, so they are
  merged key by key; \<open>startTime\<close>, \<open>endTime\<close> (strings) and \<open>recurrenceDates\<close> (an array,
  which mergeDeepRight does not descend into) are taken from the right, and so is \<open>id\<close>.
  Every other key keeps the value of \<open>event\<close>. On the record this is an update of
  exactly these four components.
\<close>

definition generateRecurringEvent ::
  "'d DateLib \<Rightarrow> ('n, 'r) Event \<Rightarrow> string \<Rightarrow> ('n, 'r) Event" where
  "generateRecurringEvent L event recurrenceStartTime =
     (let endT = endTime (fields_ev event);
          startT = startTime (fields_ev event);
          difference = diffDate L recurrenceStartTime startT;
          recurrenceEndTime = addToDate L endT difference
      in event
           \<lparr> id_ev := id_ev event @ ''-recurrence-'' @ formatEuropeanDate L recurrenceStartTime,
             fields_ev := (fields_ev event)
               \<lparr> startTime := formatDate L recurrenceStartTime FORMAT_CONTENTFUL_ISO,
                 endTime := formatDate L recurrenceEndTime FORMAT_CONTENTFUL_ISO,
                 recurrenceDates :=
                   formatEuropeanDate L startT # recurrenceDates (fields_ev event) \<rparr> \<rparr>)"

definition recurrenceDateToStartTime :: "'d DateLib \<Rightarrow> string \<Rightarrow> string \<Rightarrow> string" where
  "recurrenceDateToStartTime L originalStartTime recurrence =
     (let parts = split_on CHR ''/'' recurrence;
          recurrenceDay = nth_opt parts 0;
          recurrenceMonth = nth_opt parts 1;
          recurrenceYear = nth_opt parts 2
      in formatDate L
           (setDate L originalStartTime
              \<lparr> year = recurrenceYear, month = recurrenceMonth, day = recurrenceDay \<rparr>)
           FORMAT_CONTENTFUL_ISO)"

text \<open>The two parts of the array literal \<open>recurrenceStartTimes\<close> of
  \<open>expandRecurringEvents\<close>: the mapped recurrence dates, and the array that starts with
  the event's own start time.\<close>

definition resolvedStartTimes :: "'d DateLib \<Rightarrow> ('n, 'r) Event \<Rightarrow> string list" where
  "resolvedStartTimes L event =
     map (recurrenceDateToStartTime L (startTime (fields_ev event)))
         (recurrenceDates (fields_ev event))"

definition recurrenceStartTimes :: "'d DateLib \<Rightarrow> ('n, 'r) Event \<Rightarrow> string list" where
  "recurrenceStartTimes L event = startTime (fields_ev event) # resolvedStartTimes L event"

definition expandRecurringEvents ::
  "'d DateLib \<Rightarrow> ('n, 'r) Event \<Rightarrow> ('n, 'r) Event list" where
  "expandRecurringEvents L event =
     (let events = map (generateRecurringEvent L event)
                       (slice1 (uniq (recurrenceStartTimes L event)))
      in event # events)"

text \<open>
  What the arithmetic of a date library has to do on three dates, for a time line
  \<open>pos\<close> that places every date string at an integer: printing \<open>r\<close> in the storage
  format leaves it in place, adding the difference of \<open>r\<close> and \<open>s\<close> to \<open>e\<close> moves
  \<open>e\<close> by the distance from \<open>s\<close> to \<open>r\<close>, and printing the sum leaves it in place.
\<close>

definition offset_laws ::
  "'d DateLib \<Rightarrow> (string \<Rightarrow> int) \<Rightarrow> string \<Rightarrow> string \<Rightarrow> string \<Rightarrow> bool" where
  "offset_laws L pos r s e =
     (pos (formatDate L r FORMAT_CONTENTFUL_ISO) = pos r \<and>
      pos (addToDate L e (diffDate L r s)) = pos e + (pos r - pos s) \<and>
      pos (formatDate L (addToDate L e (diffDate L r s)) FORMAT_CONTENTFUL_ISO)
        = pos (addToDate L e (diffDate L r s)))"

section \<open>A date library for concrete runs\<close>

text \<open>
  Modelled from the spec: lib/date is missing from the sources, and the general theorems
  about event.js below hold for every date library. To run event.js on concrete events,
  this section gives one library, following what the spec says of it: dates are strings
  in a storage format (the spec's example is \<open>2018-01-09T11:00\<close>) and a European
  display format; \<open>set\<close> substitutes year, month and day into a date, a two-digit year
  meaning 20xx; \<open>diff\<close> and \<open>add\<close> are arithmetic on the time line. The display format
  is taken to be \<open>DD/MM/YYYY\<close> and a string that is not a date is answered with
  \<open>Invalid date\<close>; the spec fixes neither, and they show in the sample runs only.
\<close>

text \<open>Modelled from the spec: reading a decimal digit.\<close>

definition digit_val :: "char \<Rightarrow> int option" where
  "digit_val c = map_of (zip ''0123456789'' [0, 1, 2, 3, 4, 5, 6, 7, 8, 9]) c"

text \<open>Modelled from the spec: reading a run of decimal digits, most significant first.\<close>

fun parse_digits :: "int \<Rightarrow> string \<Rightarrow> int option" where
  "parse_digits acc [] = Some acc"
| "parse_digits acc (c # cs) =
     (case digit_val c of None \<Rightarrow> None | Some d \<Rightarrow> parse_digits (10 * acc + d) cs)"

text \<open>Modelled from the spec: a date component is a non-empty run of digits (the spec's
  recurrence dates have non-zero-padded days and months).\<close>

definition parse_number :: "string \<Rightarrow> int option" where
  "parse_number s = (if s = [] then None else parse_digits 0 s)"

text \<open>Modelled from the spec: printing the last decimal digit of a number.\<close>

definition digit_char :: "int \<Rightarrow> char" where
  "digit_char n = ''0123456789'' ! nat (n mod 10)"

text \<open>Modelled from the spec: printing a number zero-padded to two digits.\<close>

definition pad2 :: "int \<Rightarrow> string" where
  "pad2 n = [digit_char (n div 10), digit_char n]"

text \<open>Modelled from the spec: printing a number zero-padded to four digits.\<close>

definition pad4 :: "int \<Rightarrow> string" where
  "pad4 n =
     [digit_char (n div 1000), digit_char (n div 100), digit_char (n div 10), digit_char n]"

text \<open>Modelled from the spec: a parsed date, as year, month, day, hour and minute.\<close>

datatype Stamp =
  Stamp (st_year: int) (st_month: int) (st_day: int) (st_hour: int) (st_minute: int)

text \<open>Modelled from the spec: a date exists when all five of its components do.\<close>

fun stamp_of_parts ::
  "int option \<Rightarrow> int option \<Rightarrow> int option \<Rightarrow> int option \<Rightarrow> int option \<Rightarrow> Stamp option" where
  "stamp_of_parts (Some y) (Some m) (Some d) (Some h) (Some mi) = Some (Stamp y m d h mi)"
| "stamp_of_parts _ _ _ _ _ = None"

text \<open>Modelled from the spec: parsing the storage format \<open>YYYY-MM-DDTHH:mm\<close>; what
  follows the minutes (seconds, a zone offset) is not read.\<close>

definition parse_stamp :: "string \<Rightarrow> Stamp option" where
  "parse_stamp s =
     (if length s < 16 \<or> s ! 4 \<noteq> CHR ''-'' \<or> s ! 7 \<noteq> CHR ''-'' \<or> s ! 10 \<noteq> CHR ''T''
         \<or> s ! 13 \<noteq> CHR '':'' then None
      else stamp_of_parts (parse_number (take 4 s)) (parse_number (take 2 (drop 5 s)))
             (parse_number (take 2 (drop 8 s))) (parse_number (take 2 (drop 11 s)))
             (parse_number (take 2 (drop 14 s))))"

text \<open>Modelled from the spec: printing the storage format.\<close>

fun print_iso :: "Stamp \<Rightarrow> string" where
  "print_iso (Stamp y m d h mi) =
     pad4 y @ ''-'' @ pad2 m @ ''-'' @ pad2 d @ ''T'' @ pad2 h @ '':'' @ pad2 mi"

text \<open>Modelled from the spec: printing the European display format.\<close>

fun print_european :: "Stamp \<Rightarrow> string" where
  "print_european (Stamp y m d h mi) = pad2 d @ ''/'' @ pad2 m @ ''/'' @ pad4 y"

text \<open>Modelled from the spec: the time line. A date is counted in minutes since
  1970-01-01T00:00 of the proleptic Gregorian calendar; years are grouped in eras of 400
  and begin in March, so that the leap day comes last.\<close>

definition day_of_year :: "int \<Rightarrow> int \<Rightarrow> int" where
  "day_of_year m d = (153 * (m + (if m > 2 then - 3 else 9)) + 2) div 5 + d - 1"

text \<open>Modelled from the spec: days since the epoch, from the era, the year of the era
  and the day of the year.\<close>

definition days_of_era_year :: "int \<Rightarrow> int \<Rightarrow> int \<Rightarrow> int" where
  "days_of_era_year era yoe doy =
     era * 146097 + (yoe * 365 + yoe div 4 - yoe div 100 + doy) - 719468"

text \<open>Modelled from the spec: days since the epoch, from a year that begins in March.\<close>

definition days_of_shifted_year :: "int \<Rightarrow> int \<Rightarrow> int" where
  "days_of_shifted_year y' doy = days_of_era_year (y' div 400) (y' mod 400) doy"

text \<open>Modelled from the spec: days since the epoch of a calendar date.\<close>

definition days_from_civil :: "int \<Rightarrow> int \<Rightarrow> int \<Rightarrow> int" where
  "days_from_civil y m d =
     days_of_shifted_year (if m \<le> 2 then y - 1 else y) (day_of_year m d)"

text \<open>Modelled from the spec: the way back, from days since the epoch to year, month
  and day, in four steps.\<close>

definition civil_of_mp :: "int \<Rightarrow> int \<Rightarrow> int \<Rightarrow> int \<times> int \<times> int" where
  "civil_of_mp y doy mp =
     (if mp < 10 then (y, mp + 3, doy - (153 * mp + 2) div 5 + 1)
      else (y + 1, mp - 9, doy - (153 * mp + 2) div 5 + 1))"

text \<open>Modelled from the spec: the month, from the day of the year.\<close>

definition civil_of_doy :: "int \<Rightarrow> int \<Rightarrow> int \<times> int \<times> int" where
  "civil_of_doy y doy = civil_of_mp y doy ((5 * doy + 2) div 153)"

text \<open>Modelled from the spec: the day of the year, from the day and the year of the era.\<close>

definition civil_of_yoe :: "int \<Rightarrow> int \<Rightarrow> int \<Rightarrow> int \<times> int \<times> int" where
  "civil_of_yoe era doe yoe =
     civil_of_doy (yoe + era * 400) (doe - (365 * yoe + yoe div 4 - yoe div 100))"

text \<open>Modelled from the spec: the year of the era, from the day of the era.\<close>

definition civil_of_doe :: "int \<Rightarrow> int \<Rightarrow> int \<times> int \<times> int" where
  "civil_of_doe era doe =
     civil_of_yoe era doe ((doe - doe div 1460 + doe div 36524 - doe div 146096) div 365)"

text \<open>Modelled from the spec: the calendar date of a number of days since the epoch.\<close>

definition civil_from_days :: "int \<Rightarrow> int \<times> int \<times> int" where
  "civil_from_days z = civil_of_doe ((z + 719468) div 146097) ((z + 719468) mod 146097)"

text \<open>Modelled from the spec: the place of a date on the time line, in minutes.\<close>

fun stamp_minutes :: "Stamp \<Rightarrow> int" where
  "stamp_minutes (Stamp y m d h mi) = (days_from_civil y m d * 24 + h) * 60 + mi"

text \<open>Modelled from the spec: a date from its calendar day and the minute of the day.\<close>

fun stamp_of_civil :: "int \<times> int \<times> int \<Rightarrow> int \<Rightarrow> Stamp" where
  "stamp_of_civil (y, m, d) r = Stamp y m d (r div 60) (r mod 60)"

text \<open>Modelled from the spec: the date at a place of the time line.\<close>

definition minutes_stamp :: "int \<Rightarrow> Stamp" where
  "minutes_stamp n = stamp_of_civil (civil_from_days (n div 1440)) (n mod 1440)"

text \<open>Modelled from the spec: the answer to a string that is not a date.\<close>

definition invalid_date :: string where
  "invalid_date = ''Invalid date''"

text \<open>Modelled from the spec: a date as a string in the storage format.\<close>

fun render_iso :: "Stamp option \<Rightarrow> string" where
  "render_iso None = invalid_date"
| "render_iso (Some t) = print_iso t"

text \<open>Modelled from the spec: a component of \<open>set\<close>'s second argument; an absent one
  keeps the value of the date.\<close>

fun part_value :: "string option \<Rightarrow> int \<Rightarrow> int option" where
  "part_value None old = Some old"
| "part_value (Some s) old = parse_number s"

text \<open>Modelled from the spec: ``2-digit year assumed 20xx''.\<close>

definition full_year :: "int \<Rightarrow> int" where
  "full_year n = (if n < 100 then 2000 + n else n)"

text \<open>Modelled from the spec: the year component of \<open>set\<close>'s second argument.\<close>

fun year_value :: "string option \<Rightarrow> int \<Rightarrow> int option" where
  "year_value None old = Some old"
| "year_value (Some s) old = map_option full_year (parse_number s)"

text \<open>Modelled from the spec: \<open>set\<close> of lib/date, ``substituting its year/month/day
  components into the original startTime''.\<close>

fun set_stamp :: "Stamp option \<Rightarrow> DateParts \<Rightarrow> string" where
  "set_stamp None parts = invalid_date"
| "set_stamp (Some (Stamp y m d h mi)) parts =
     render_iso (stamp_of_parts (year_value (year parts) y) (part_value (month parts) m)
                   (part_value (day parts) d) (Some h) (Some mi))"

text \<open>Modelled from the spec: \<open>diff\<close> of lib/date, the offset between two dates on the
  time line; there is none when one of them is not a date.\<close>

fun diff_stamp :: "Stamp option \<Rightarrow> Stamp option \<Rightarrow> int option" where
  "diff_stamp (Some a) (Some b) = Some (stamp_minutes a - stamp_minutes b)"
| "diff_stamp _ _ = None"

text \<open>Modelled from the spec: \<open>add\<close> of lib/date, a date moved by an offset.\<close>

fun add_stamp :: "Stamp option \<Rightarrow> int option \<Rightarrow> string" where
  "add_stamp (Some t) (Some n) = print_iso (minutes_stamp (stamp_minutes t + n))"
| "add_stamp _ _ = invalid_date"

text \<open>Modelled from the spec: \<open>toFormat\<close> of lib/date, in the two formats.\<close>

fun format_stamp :: "Stamp option \<Rightarrow> Format \<Rightarrow> string" where
  "format_stamp None f = invalid_date"
| "format_stamp (Some t) FORMAT_CONTENTFUL_ISO = print_iso t"
| "format_stamp (Some t) FORMAT_EUROPEAN_DATE = print_european t"

text \<open>Modelled from the spec: the date library of the concrete runs.\<close>

definition spec_DateLib :: "int option DateLib" where
  "spec_DateLib =
     \<lparr> setDate = (\<lambda>s parts. set_stamp (parse_stamp s) parts),
       diffDate = (\<lambda>a b. diff_stamp (parse_stamp a) (parse_stamp b)),
       addToDate = (\<lambda>s n. add_stamp (parse_stamp s) n),
       formatDate = (\<lambda>s f. format_stamp (parse_stamp s) f) \<rparr>"

text \<open>Modelled from the spec: the place of a date string on the time line, in minutes;
  0 for a string that is not a date.\<close>

definition instant :: "string \<Rightarrow> int" where
  "instant s = (case parse_stamp s of None \<Rightarrow> 0 | Some t \<Rightarrow> stamp_minutes t)"

text \<open>A list of dates is in chronological order when their places on the time line do not
  decrease.\<close>

definition chronological :: "string list \<Rightarrow> bool" where
  "chronological ts = sorted (map instant ts)"

subsection \<open>Sample events\<close>

text \<open>The event of the spec's example: it starts at \<open>2018-01-09T11:00\<close>, here for two
  hours, and its recurrence dates are the argument. Numbers are integers and a field
  reference is a string in the samples.\<close>

definition sampleEvent :: "string list \<Rightarrow> (int, string) Event" where
  "sampleEvent rds =
     \<lparr> contentType = ''event'', id_ev = ''event1'', locale_ev = ''en-GB'', revision = 1,
       fields_ev =
         \<lparr> name = ''Pride in the Park'',
           eventCategories = [''Community'', ''Music''],
           audience = [],
           startTime = ''2018-01-09T11:00'',
           endTime = ''2018-01-09T13:00'',
           location = \<lparr> lat = 51, lon = 0 \<rparr>,
           addressLine1 = None, addressLine2 = None, city = None, postcode = None,
           locationName = ''Vauxhall Pleasure Gardens'',
           eventPriceLow = 19, eventPriceHigh = 30,
           accessibilityOptions = [''Accessible Toilets''],
           eventDescription = ''A walking tour'',
           accessibilityDetails = None, email = None, phone = None,
           ticketingUrl = Some ''https://prideinlondon.org/pride-in-the-park/'',
           venueDetails = [''Gender neutral toilets''],
           individualEventPicture = ''HNLFqItbkAmW8ssqQECIy'',
           eventsListPicture = ''HNLFqItbkAmW8ssqQECIy'',
           performances = [],
           recurrenceDates = rds \<rparr> \<rparr>"

section \<open>Decoding (src/data/event.js on lib/decode)\<close>

subsection \<open>Raw content and decoders\<close>

text \<open>
  The raw content entry is an untyped JavaScript value: \<open>null\<close>, a boolean, a number, a
  string, an array or an object. An object is the list of its keys with their values
  (a key is looked up from the left).
\<close>

datatype 'n json =
  JNull
| JBool bool
| JNum 'n
| JStr string
| JArr "'n json list"
| JObj "(string \<times> 'n json) list"

text \<open>Modelled from the spec: a decode failure ``carrying a path (sequence of field
  names/indices) and a message''; lib/decode is missing from the sources.\<close>

datatype PathSeg = Key string | Index nat

text \<open>Modelled from the spec: the message of a failure, which is a missing field, a value
  of the wrong type or not the expected literal (with what was expected), or ``none
  matched'' of \<open>oneOf\<close>.\<close>

datatype Failure = MissingField | Mismatch string | NoneMatched

text \<open>Modelled from the spec: the typed decode failure.\<close>

datatype DecodeError = DecodeError (err_path: "PathSeg list") (err_failure: Failure)

text \<open>Modelled from the spec: ``a decoder for type A is a function from an arbitrary
  untyped input value to either a successful value of type A or a typed decode
  failure''.\<close>

type_synonym ('n, 'a) Decoder = "'n json \<Rightarrow> DecodeError + 'a"

text \<open>Modelled from the spec: a failure below a path has the path put in front of its
  own.\<close>

fun under_path :: "PathSeg list \<Rightarrow> DecodeError + 'a \<Rightarrow> DecodeError + 'a" where
  "under_path p (Inl (DecodeError q f)) = Inl (DecodeError (p @ q) f)"
| "under_path p (Inr a) = Inr a"

text \<open>Modelled from the spec: the value of a key; a value that is not an object has no
  keys.\<close>

fun get_field :: "'n json \<Rightarrow> string \<Rightarrow> 'n json option" where
  "get_field (JObj kvs) k = map_of kvs k"
| "get_field _ k = None"

text \<open>Modelled from the spec: \<open>decode.string\<close>, which event.js uses for the string
  fields; any other type is a mismatch.\<close>

fun decode_string :: "('n, string) Decoder" where
  "decode_string (JStr s) = Inr s"
| "decode_string _ = Inl (DecodeError [] (Mismatch ''string''))"

text \<open>Modelled from the spec: \<open>decode.number\<close>, which event.js uses for the numeric
  fields.\<close>

fun decode_number :: "('n, 'n) Decoder" where
  "decode_number (JNum n) = Inr n"
| "decode_number _ = Inl (DecodeError [] (Mismatch ''number''))"

text \<open>Modelled from the spec: \<open>value(literal)\<close> ``succeeds only if input strictly equals
  literal''; event.js uses it with string literals only.\<close>

definition decode_value :: "string \<Rightarrow> ('n, string) Decoder" where
  "decode_value literal v =
     (if v = JStr literal then Inr literal else Inl (DecodeError [] (Mismatch literal)))"

text \<open>Modelled from the spec: \<open>succeed(x)\<close> ``ignores input, always succeeds with x''.\<close>

definition decode_succeed :: "'a \<Rightarrow> ('n, 'a) Decoder" where
  "decode_succeed x v = Inr x"

text \<open>Modelled from the spec: \<open>map(f, decoder)\<close> ``transforms a successful decode result;
  does not affect failure''.\<close>

definition decode_map :: "('a \<Rightarrow> 'b) \<Rightarrow> ('n, 'a) Decoder \<Rightarrow> ('n, 'b) Decoder" where
  "decode_map f decoder v = (case decoder v of Inl e \<Rightarrow> Inl e | Inr a \<Rightarrow> Inr (f a))"

text \<open>Modelled from the spec: \<open>maybe(decoder)\<close> ``never fails; yields present/absent based
  on whether the wrapped decoder succeeds''.\<close>

definition decode_maybe :: "('n, 'a) Decoder \<Rightarrow> ('n, 'a option) Decoder" where
  "decode_maybe decoder v = Inr (case decoder v of Inl e \<Rightarrow> None | Inr a \<Rightarrow> Some a)"

text \<open>Modelled from the spec: \<open>withDefault\<close> of lib/maybe, the ``explicit
  default-substitution combinator''.\<close>

fun maybe_withDefault :: "'a \<Rightarrow> 'a option \<Rightarrow> 'a" where
  "maybe_withDefault defaultValue None = defaultValue"
| "maybe_withDefault defaultValue (Some a) = a"

text \<open>Modelled from the spec: \<open>field(name, decoder)\<close> ``fails with MissingField if name
  absent, else recurses''.\<close>

definition decode_field :: "string \<Rightarrow> ('n, 'a) Decoder \<Rightarrow> ('n, 'a) Decoder" where
  "decode_field k decoder v =
     (case get_field v k of
        None \<Rightarrow> Inl (DecodeError [Key k] MissingField)
      | Some x \<Rightarrow> under_path [Key k] (decoder x))"

text \<open>Modelled from the spec: the value at the end of a path of keys, if every segment
  is there.\<close>

fun follow :: "string list \<Rightarrow> 'n json \<Rightarrow> 'n json option" where
  "follow [] v = Some v"
| "follow (k # ks) v = (case get_field v k of None \<Rightarrow> None | Some x \<Rightarrow> follow ks x)"

text \<open>Modelled from the spec: \<open>at(path, decoder)\<close>, ``repeated field traversal; fails at
  the first missing/mismatched segment, reporting the full path for diagnostics''.\<close>

definition decode_at :: "string list \<Rightarrow> ('n, 'a) Decoder \<Rightarrow> ('n, 'a) Decoder" where
  "decode_at path decoder v =
     (case follow path v of
        None \<Rightarrow> Inl (DecodeError (map Key path) MissingField)
      | Some x \<Rightarrow> under_path (map Key path) (decoder x))"

text \<open>Modelled from the spec: the elements of an array, decoded from the left: the
  array ``fails with the first element's error, annotated with its index''.\<close>

fun decode_elements :: "('n, 'a) Decoder \<Rightarrow> nat \<Rightarrow> 'n json list \<Rightarrow> DecodeError + 'a list" where
  "decode_elements decoder i [] = Inr []"
| "decode_elements decoder i (x # xs) =
     (case decoder x of
        Inl e \<Rightarrow> under_path [Index i] (Inl e)
      | Inr a \<Rightarrow>
          (case decode_elements decoder (Suc i) xs of
             Inl e \<Rightarrow> Inl e
           | Inr as \<Rightarrow> Inr (a # as)))"

text \<open>Modelled from the spec: \<open>array(decoder)\<close> ``decodes a sequence''.\<close>

fun decode_array :: "('n, 'a) Decoder \<Rightarrow> ('n, 'a list) Decoder" where
  "decode_array decoder (JArr xs) = decode_elements decoder 0 xs"
| "decode_array decoder _ = Inl (DecodeError [] (Mismatch ''array''))"

text \<open>Modelled from the spec: \<open>oneOf(decoders)\<close> ``succeeds with the first decoder that
  succeeds; fails with an aggregate "none matched" error if all fail''.\<close>

fun decode_oneOf :: "('n, 'a) Decoder list \<Rightarrow> ('n, 'a) Decoder" where
  "decode_oneOf [] v = Inl (DecodeError [] NoneMatched)"
| "decode_oneOf (decoder # decoders) v =
     (case decoder v of Inr a \<Rightarrow> Inr a | Inl e \<Rightarrow> decode_oneOf decoders v)"

text \<open>Modelled from the spec: \<open>shape(spec)\<close> ``decodes a mapping of named decoders into a
  record; fails on the first failing key (order = declaration order)''. A shape is
  written key by key: \<open>shape_key r f\<close> is the result \<open>r\<close> of one key's decoder on the input,
  followed by the keys after it (\<open>f\<close>), which receive the decoded value.\<close>

fun shape_key :: "DecodeError + 'a \<Rightarrow> ('a \<Rightarrow> DecodeError + 'b) \<Rightarrow> DecodeError + 'b" where
  "shape_key (Inl e) f = Inl e"
| "shape_key (Inr a) f = f a"

subsection \<open>The event decoder\<close>

definition eventCategoryNames :: "string list" where
  "eventCategoryNames =
     [''Cabaret and Variety'', ''Community'', ''Talks and Debates'', ''Film and Screenings'',
      ''Plays and Theatre'', ''Social and Networking'', ''Nightlife'',
      ''Exhibition and Tours'', ''Sports and Activities'', ''Health'', ''Music'']"

definition decodeEventCategoryName :: "('n, string) Decoder" where
  "decodeEventCategoryName = decode_oneOf (map decode_value eventCategoryNames)"

definition maybeField :: "string \<Rightarrow> string \<Rightarrow> ('n, 'a) Decoder \<Rightarrow> ('n, 'a option) Decoder" where
  "maybeField locale field decoder =
     decode_field field (decode_maybe (decode_field locale decoder))"

definition maybeFieldWithDefault ::
  "string \<Rightarrow> string \<Rightarrow> ('n, 'a) Decoder \<Rightarrow> 'a \<Rightarrow> ('n, 'a) Decoder" where
  "maybeFieldWithDefault locale field decoder defaultValue =
     decode_map (maybe_withDefault defaultValue) (maybeField locale field decoder)"

text \<open>The inner \<open>decode.shape({ lat: ..., lon: ... })\<close> of the \<open>location\<close> field.\<close>

definition decodeLocation :: "('n, 'n Location) Decoder" where
  "decodeLocation v =
     shape_key (decode_field ''lat'' decode_number v) (\<lambda>la.
     shape_key (decode_field ''lon'' decode_number v) (\<lambda>lo.
     Inr \<lparr> lat = la, lon = lo \<rparr>))"

text \<open>
  The shape under \<open>fields\<close>, key by key in the order of the source. \<open>decodeFieldRef\<close>
  is imported from ./field-ref, which is not among the sources: it is a parameter.
\<close>

definition decodeEventFields ::
  "('n, 'r) Decoder \<Rightarrow> string \<Rightarrow> ('n, ('n, 'r) EventFields) Decoder" where
  "decodeEventFields decodeFieldRef locale v =
     shape_key (decode_at [''name'', locale] decode_string v) (\<lambda>f_name.
     shape_key (decode_at [''eventCategories'', locale]
                  (decode_array decodeEventCategoryName) v) (\<lambda>f_eventCategories.
     shape_key (maybeFieldWithDefault locale ''audience''
                  (decode_array decode_string) [] v) (\<lambda>f_audience.
     shape_key (decode_at [''startTime'', locale] decode_string v) (\<lambda>f_startTime.
     shape_key (decode_at [''endTime'', locale] decode_string v) (\<lambda>f_endTime.
     shape_key (decode_at [''location'', locale] decodeLocation v) (\<lambda>f_location.
     shape_key (maybeField locale ''addressLine1'' decode_string v) (\<lambda>f_addressLine1.
     shape_key (maybeField locale ''addressLine2'' decode_string v) (\<lambda>f_addressLine2.
     shape_key (maybeField locale ''city'' decode_string v) (\<lambda>f_city.
     shape_key (maybeField locale ''postcode'' decode_string v) (\<lambda>f_postcode.
     shape_key (decode_at [''locationName'', locale] decode_string v) (\<lambda>f_locationName.
     shape_key (decode_at [''eventPriceLow'', locale] decode_number v) (\<lambda>f_eventPriceLow.
     shape_key (decode_at [''eventPriceHigh'', locale] decode_number v) (\<lambda>f_eventPriceHigh.
     shape_key (maybeFieldWithDefault locale ''accessibilityOptions''
                  (decode_array decode_string) [] v) (\<lambda>f_accessibilityOptions.
     shape_key (decode_at [''eventDescription'', locale] decode_string v)
       (\<lambda>f_eventDescription.
     shape_key (maybeField locale ''accessibilityDetails'' decode_string v)
       (\<lambda>f_accessibilityDetails.
     shape_key (maybeField locale ''email'' decode_string v) (\<lambda>f_email.
     shape_key (maybeField locale ''phone'' decode_string v) (\<lambda>f_phone.
     shape_key (maybeField locale ''ticketingUrl'' decode_string v) (\<lambda>f_ticketingUrl.
     shape_key (maybeFieldWithDefault locale ''venueDetails''
                  (decode_array decode_string) [] v) (\<lambda>f_venueDetails.
     shape_key (decode_at [''individualEventPicture'', locale] decodeFieldRef v)
       (\<lambda>f_individualEventPicture.
     shape_key (decode_at [''eventsListPicture'', locale] decodeFieldRef v)
       (\<lambda>f_eventsListPicture.
     shape_key (maybeFieldWithDefault locale ''performances''
                  (decode_array decodeFieldRef) [] v) (\<lambda>f_performances.
     shape_key (maybeFieldWithDefault locale ''recurrenceDates''
                  (decode_array decode_string) [] v) (\<lambda>f_recurrenceDates.
     Inr \<lparr> name = f_name,
           eventCategories = f_eventCategories,
           audience = f_audience,
           startTime = f_startTime,
           endTime = f_endTime,
           location = f_location,
           addressLine1 = f_addressLine1,
           addressLine2 = f_addressLine2,
           city = f_city,
           postcode = f_postcode,
           locationName = f_locationName,
           eventPriceLow = f_eventPriceLow,
           eventPriceHigh = f_eventPriceHigh,
           accessibilityOptions = f_accessibilityOptions,
           eventDescription = f_eventDescription,
           accessibilityDetails = f_accessibilityDetails,
           email = f_email,
           phone = f_phone,
           ticketingUrl = f_ticketingUrl,
           venueDetails = f_venueDetails,
           individualEventPicture = f_individualEventPicture,
           eventsListPicture = f_eventsListPicture,
           performances = f_performances,
           recurrenceDates = f_recurrenceDates \<rparr>))))))))))))))))))))))))"

definition decodeEvent :: "('n, 'r) Decoder \<Rightarrow> string \<Rightarrow> ('n, ('n, 'r) Event) Decoder" where
  "decodeEvent decodeFieldRef locale v =
     shape_key (decode_at [''sys'', ''contentType'', ''sys'', ''id''] (decode_value ''event'') v)
       (\<lambda>f_contentType.
     shape_key (decode_at [''sys'', ''id''] decode_string v) (\<lambda>f_id.
     shape_key (decode_succeed locale v) (\<lambda>f_locale.
     shape_key (decode_at [''sys'', ''revision''] decode_number v) (\<lambda>f_revision.
     shape_key (decode_field ''fields'' (decodeEventFields decodeFieldRef locale) v)
       (\<lambda>f_fields.
     Inr \<lparr> contentType = f_contentType,
           id_ev = f_id,
           locale_ev = f_locale,
           revision = f_revision,
           fields_ev = f_fields \<rparr>)))))"

subsection \<open>What the decoder requires of an entry\<close>

text \<open>
  The required parts of a raw entry, as \<open>decodeEvent\<close> reads them: the content type is
  the string \<open>event\<close>; \<open>sys.id\<close> is a string and \<open>sys.revision\<close> a number; under \<open>fields\<close>
  and the locale, the fields read without \<open>maybe\<close> are there and have their types.
\<close>

fun is_string :: "'n json option \<Rightarrow> bool" where
  "is_string (Some (JStr s)) = True"
| "is_string _ = False"

fun is_number :: "'n json option \<Rightarrow> bool" where
  "is_number (Some (JNum n)) = True"
| "is_number _ = False"

fun is_categories :: "'n json option \<Rightarrow> bool" where
  "is_categories (Some (JArr xs)) = list_all (\<lambda>x. x \<in> JStr ` set eventCategoryNames) xs"
| "is_categories _ = False"

fun is_location :: "'n json option \<Rightarrow> bool" where
  "is_location (Some v) = (is_number (get_field v ''lat'') \<and> is_number (get_field v ''lon''))"
| "is_location None = False"

fun succeeded :: "DecodeError + 'a \<Rightarrow> bool" where
  "succeeded (Inr a) = True"
| "succeeded (Inl e) = False"

fun is_ref :: "('n, 'r) Decoder \<Rightarrow> 'n json option \<Rightarrow> bool" where
  "is_ref decodeFieldRef (Some v) = succeeded (decodeFieldRef v)"
| "is_ref decodeFieldRef None = False"

definition required_ok :: "('n, 'r) Decoder \<Rightarrow> string \<Rightarrow> 'n json \<Rightarrow> bool" where
  "required_ok decodeFieldRef locale raw =
     (follow [''sys'', ''contentType'', ''sys'', ''id''] raw = Some (JStr ''event'') \<and>
      is_string (follow [''sys'', ''id''] raw) \<and>
      is_number (follow [''sys'', ''revision''] raw) \<and>
      is_string (follow [''fields'', ''name'', locale] raw) \<and>
      is_categories (follow [''fields'', ''eventCategories'', locale] raw) \<and>
      is_string (follow [''fields'', ''startTime'', locale] raw) \<and>
      is_string (follow [''fields'', ''endTime'', locale] raw) \<and>
      is_location (follow [''fields'', ''location'', locale] raw) \<and>
      is_string (follow [''fields'', ''locationName'', locale] raw) \<and>
      is_number (follow [''fields'', ''eventPriceLow'', locale] raw) \<and>
      is_number (follow [''fields'', ''eventPriceHigh'', locale] raw) \<and>
      is_string (follow [''fields'', ''eventDescription'', locale] raw) \<and>
      is_ref decodeFieldRef (follow [''fields'', ''individualEventPicture'', locale] raw) \<and>
      is_ref decodeFieldRef (follow [''fields'', ''eventsListPicture'', locale] raw))"

text \<open>A result is path-qualified when it is a success, or a failure whose path is not
  empty.\<close>

fun path_qualified :: "DecodeError + 'a \<Rightarrow> bool" where
  "path_qualified (Inl e) = (err_path e \<noteq> [])"
| "path_qualified (Inr a) = True"

subsection \<open>A sample entry\<close>

text \<open>
  Modelled from the spec: ./field-ref is missing from the sources. For the sample runs a
  field reference is decoded to the \<open>sys.id\<close> of the asset (the spec: ``decoded
  structurally but not interpreted''); the theorems below hold for every decoder of field
  references.
\<close>

definition sampleFieldRef :: "('n, string) Decoder" where
  "sampleFieldRef = decode_at [''sys'', ''id''] decode_string"

text \<open>A field value under the locale \<open>en-GB\<close>, and the asset of the two pictures.\<close>

definition localized :: "'n json \<Rightarrow> 'n json" where
  "localized v = JObj [(''en-GB'', v)]"

definition sampleAsset :: "int json" where
  "sampleAsset =
     JObj [(''sys'', JObj [(''id'', JStr ''HNLFqItbkAmW8ssqQECIy''), (''type'', JStr ''Asset'')])]"

text \<open>
  A raw entry in the shape of the content API, after the entry of the repository's test
  data: the content type, the categories and the recurrence dates are the arguments.
  With the content type \<open>event\<close> and the categories Community and Music it decodes to
  \<open>sampleEvent\<close>. The optional fields without a value are present with no entry for the
  locale.
\<close>

definition sampleRaw :: "string \<Rightarrow> string list \<Rightarrow> string list \<Rightarrow> int json" where
  "sampleRaw ct cats rds =
     JObj
      [(''sys'',
          JObj [(''id'', JStr ''event1''), (''revision'', JNum 1),
                (''contentType'', JObj [(''sys'', JObj [(''id'', JStr ct)])])]),
       (''fields'',
          JObj
           [(''name'', localized (JStr ''Pride in the Park'')),
            (''location'', localized (JObj [(''lon'', JNum 0), (''lat'', JNum 51)])),
            (''locationName'', localized (JStr ''Vauxhall Pleasure Gardens'')),
            (''startTime'', localized (JStr ''2018-01-09T11:00'')),
            (''endTime'', localized (JStr ''2018-01-09T13:00'')),
            (''eventPriceLow'', localized (JNum 19)),
            (''eventPriceHigh'', localized (JNum 30)),
            (''eventDescription'', localized (JStr ''A walking tour'')),
            (''individualEventPicture'', localized sampleAsset),
            (''eventsListPicture'', localized sampleAsset),
            (''ticketingUrl'',
               localized (JStr ''https://prideinlondon.org/pride-in-the-park/'')),
            (''accessibilityOptions'', localized (JArr [JStr ''Accessible Toilets''])),
            (''eventCategories'', localized (JArr (map JStr cats))),
            (''recurrenceDates'', localized (JArr (map JStr rds))),
            (''venueDetails'', localized (JArr [JStr ''Gender neutral toilets''])),
            (''audience'', JObj []), (''addressLine1'', JObj []), (''addressLine2'', JObj []),
            (''city'', JObj []), (''postcode'', JObj []), (''accessibilityDetails'', JObj []),
            (''email'', JObj []), (''phone'', JObj []), (''performances'', JObj [])])]"

section \<open>Event filters (event-filters.js, known from its test)\<close>

text \<open>
  Modelled from the spec: the module event-filters.js, with \<open>selectDateFilter\<close>,
  \<open>selectTimeFilter\<close> and \<open>buildEventFilter\<close>, is missing from the sources; only its test
  is there. The state is the one the test builds (\<open>buildState\<close>); the definitions follow
  section 4.5 of the spec.
\<close>

text \<open>Modelled from the spec: a date range, as declared in the sources
  (\<open>{ startDate: string, endDate: string }\<close>).\<close>

record DateRange =
  startDate :: string
  endDate :: string

text \<open>Modelled from the spec: the time-of-day buckets. The test of event-filters.js
  names \<open>morning\<close>, \<open>afternoon\<close> and \<open>evening\<close> and calls the three of them ``all possible
  values''.\<close>

datatype Time = Morning | Afternoon | Evening

text \<open>Modelled from the spec: ``the full set of all possible buckets''.\<close>

definition allTimes :: "Time set" where
  "allTimes = {Morning, Afternoon, Evening}"

text \<open>Modelled from the spec: one copy of the filters, as \<open>buildState\<close> of the test
  builds it: a date range or \<open>null\<close>, a set of buckets and a set of categories.\<close>

record FilterCollection =
  date :: "DateRange option"
  time :: "Time set"
  categories :: "string set"

text \<open>Modelled from the spec: the two parallel copies, selected and staged.\<close>

record EventFilters =
  selectedFilters :: FilterCollection
  stagedFilters :: FilterCollection

text \<open>Modelled from the spec: the state of the test; the \<open>events\<close> part plays no role in
  the filters and is left abstract.\<close>

record 's State =
  events :: 's
  eventFilters :: EventFilters

text \<open>Modelled from the spec: the choice of a copy, ``defaulting to the selected branch
  when \<open>staged\<close> is omitted or false''; an omitted argument is \<open>None\<close>.\<close>

definition chosenFilters :: "'s State \<Rightarrow> bool option \<Rightarrow> FilterCollection" where
  "chosenFilters state staged =
     (if staged = Some True then stagedFilters (eventFilters state)
      else selectedFilters (eventFilters state))"

text \<open>Modelled from the spec: \<open>selectDateFilter(state, staged?)\<close>, a pure projection.\<close>

definition selectDateFilter :: "'s State \<Rightarrow> bool option \<Rightarrow> DateRange option" where
  "selectDateFilter state staged = date (chosenFilters state staged)"

text \<open>Modelled from the spec: \<open>selectTimeFilter(state, staged?)\<close>, a pure projection.\<close>

definition selectTimeFilter :: "'s State \<Rightarrow> bool option \<Rightarrow> Time set" where
  "selectTimeFilter state staged = time (chosenFilters state staged)"

text \<open>Modelled from the spec: the date component of \<open>buildEventFilter\<close>: ``if the chosen
  date filter is absent (null), the date component of the predicate is always-true; if
  present, delegate to buildDateRangeFilter''. \<open>buildDateRangeFilter\<close> belongs to
  basic-event-filters.js, which the test mocks: it is a parameter.\<close>

fun dateComponent :: "(DateRange \<Rightarrow> 'e \<Rightarrow> bool) \<Rightarrow> DateRange option \<Rightarrow> 'e \<Rightarrow> bool" where
  "dateComponent buildDateRangeFilter None event = True"
| "dateComponent buildDateRangeFilter (Some dateRange) event = buildDateRangeFilter dateRange event"

text \<open>Modelled from the spec: the time component of \<open>buildEventFilter\<close>: ``if the chosen
  time-bucket set is empty, OR equals the full set of all possible buckets, the time
  component is always-true; otherwise the time component is true iff the event matches
  any bucket in the set''. \<open>buildTimeFilter\<close> is a parameter, like
  \<open>buildDateRangeFilter\<close>.\<close>

definition timeComponent :: "(Time \<Rightarrow> 'e \<Rightarrow> bool) \<Rightarrow> Time set \<Rightarrow> 'e \<Rightarrow> bool" where
  "timeComponent buildTimeFilter buckets event =
     (if buckets = {} \<or> buckets = allTimes then True
      else (\<exists>t\<in>buckets. buildTimeFilter t event))"

text \<open>Modelled from the spec: \<open>buildEventFilter(state, staged?)\<close>, ``final predicate =
  date component AND time component''.\<close>

definition buildEventFilter ::
  "(DateRange \<Rightarrow> 'e \<Rightarrow> bool) \<Rightarrow> (Time \<Rightarrow> 'e \<Rightarrow> bool) \<Rightarrow> 's State \<Rightarrow> bool option \<Rightarrow> 'e \<Rightarrow> bool" where
  "buildEventFilter buildDateRangeFilter buildTimeFilter state staged event =
     (dateComponent buildDateRangeFilter (selectDateFilter state staged) event \<and>
      timeComponent buildTimeFilter (selectTimeFilter state staged) event)"

text \<open>
  The second half of claim C9 as it is worded, for comparison with \<open>buildEventFilter\<close>:
  ``otherwise the predicate is the conjunction of the date-range component and a time
  component that is true iff the event matches at least one bucket in the set''.
\<close>

definition worded_otherwise ::
  "(DateRange \<Rightarrow> 'e \<Rightarrow> bool) \<Rightarrow> (Time \<Rightarrow> 'e \<Rightarrow> bool) \<Rightarrow> 's State \<Rightarrow> bool option \<Rightarrow> 'e \<Rightarrow> bool" where
  "worded_otherwise buildDateRangeFilter buildTimeFilter state staged event =
     (dateComponent buildDateRangeFilter (selectDateFilter state staged) event \<and>
      (\<exists>t\<in>selectTimeFilter state staged. buildTimeFilter t event))"

subsection \<open>Sample filter states\<close>

text \<open>The states of the test of event-filters.js: the same filters selected and staged,
  and no events. The mocked basic filters answer with a constant.\<close>

definition sampleState :: "DateRange option \<Rightarrow> Time set \<Rightarrow> unit State" where
  "sampleState d t =
     \<lparr> events = (),
       eventFilters =
         \<lparr> selectedFilters = \<lparr> date = d, time = t, categories = {} \<rparr>,
           stagedFilters = \<lparr> date = d, time = t, categories = {} \<rparr> \<rparr> \<rparr>"

definition sampleRange :: DateRange where
  "sampleRange = \<lparr> startDate = ''2018-01-01'', endDate = ''2018-01-01'' \<rparr>"

definition mockDateRangeFilter :: "bool \<Rightarrow> DateRange \<Rightarrow> 'e \<Rightarrow> bool" where
  "mockDateRangeFilter b dateRange event = b"

definition mockTimeFilter :: "bool \<Rightarrow> Time \<Rightarrow> 'e \<Rightarrow> bool" where
  "mockTimeFilter b t event = b"

section \<open>The filter modal (src/screens/FilterModal/component.js)\<close>

text \<open>
  \<open>toggleTagFilter\<close> works on JavaScript \<open>Set\<close> objects, which are mutable and are passed
  by reference. The store holds the \<open>Set\<close> objects: a reference is a number, the
  references below \<open>next_ref\<close> are allocated, and the elements of a \<open>Set\<close> are listed in
  insertion order, each once.
\<close>

record SetStore =
  elements :: "nat \<Rightarrow> string list"
  next_ref :: nat

text \<open>\<open>new Set(iterable)\<close>: a fresh object, to which the elements are added from the left;
  an element that is already there is not added again.\<close>

definition new_Set :: "string list \<Rightarrow> SetStore \<Rightarrow> nat \<times> SetStore" where
  "new_Set xs st =
     (next_ref st,
      st \<lparr> elements := (elements st) (next_ref st := uniq xs),
           next_ref := Suc (next_ref st) \<rparr>)"

text \<open>The spread \<open>[...s]\<close>: the elements of the \<open>Set\<close> in insertion order.\<close>

definition spread :: "nat \<Rightarrow> SetStore \<Rightarrow> string list" where
  "spread r st = elements st r"

text \<open>\<open>s.delete(v)\<close> removes the element in place and returns whether it was there.\<close>

definition Set_delete :: "nat \<Rightarrow> string \<Rightarrow> SetStore \<Rightarrow> bool \<times> SetStore" where
  "Set_delete r v st =
     (v \<in> set (elements st r),
      st \<lparr> elements := (elements st) (r := removeAll v (elements st r)) \<rparr>)"

text \<open>\<open>s.add(v)\<close> appends the element in place, unless it is there.\<close>

definition Set_add :: "nat \<Rightarrow> string \<Rightarrow> SetStore \<Rightarrow> SetStore" where
  "Set_add r v st =
     (if v \<in> set (elements st r) then st
      else st \<lparr> elements := (elements st) (r := elements st r @ [v]) \<rparr>)"

text \<open>\<open>toggleTagFilter\<close>, returning the reference of the new \<open>Set\<close> and the store after
  the call.\<close>

definition toggleTagFilter :: "nat \<Rightarrow> string \<Rightarrow> SetStore \<Rightarrow> nat \<times> SetStore" where
  "toggleTagFilter selectedValues sectionValue st =
     (let (values, st1) = new_Set (spread selectedValues st) st;
          (deleted, st2) = Set_delete values sectionValue st1;
          st3 = (if \<not> deleted then Set_add values sectionValue st2 else st2)
      in (values, st3))"

text \<open>A store with one \<open>Set\<close>, at reference 0.\<close>

definition sampleStore :: "string list \<Rightarrow> SetStore" where
  "sampleStore xs = \<lparr> elements = (\<lambda>r. []) (0 := xs), next_ref = 1 \<rparr>"

section \<open>Properties of the recurrence expansion\<close>

lemma uniq_from_cong:
  "set seen = set seen' \<union> A \<Longrightarrow>
     uniq_from seen xs = uniq_from seen' (filter (\<lambda>x. x \<notin> A) xs)"
proof (induction xs arbitrary: seen seen')
  case Nil
  show ?case by simp
next
  case (Cons x xs)
  show ?case
  proof (cases "x \<in> set seen")
    case True
    then show ?thesis using Cons.prems Cons.IH [OF Cons.prems] by auto
  next
    case False
    have "set (x # seen) = set (x # seen') \<union> A"
      using Cons.prems by auto
    from Cons.IH [OF this] False Cons.prems show ?thesis by auto
  qed
qed

lemma uniq_from_filter:
  "uniq_from seen xs = uniq_from [] (filter (\<lambda>x. x \<notin> set seen) xs)"
  by (rule uniq_from_cong) simp

lemma set_uniq_from: "set (uniq_from seen xs) = set xs - set seen"
  by (induction xs arbitrary: seen) auto

lemma distinct_uniq_from: "distinct (uniq_from seen xs)"
  by (induction xs arbitrary: seen) (auto simp: set_uniq_from)

lemma slice1_uniq_Cons: "slice1 (uniq (s # xs)) = uniq (filter (\<lambda>x. x \<noteq> s) xs)"
proof -
  have "slice1 (uniq (s # xs)) = uniq_from [s] xs"
    by (simp add: slice1_def uniq_def)
  also have "\<dots> = uniq_from [] (filter (\<lambda>x. x \<notin> set [s]) xs)"
    by (rule uniq_from_filter)
  finally show ?thesis by (simp add: uniq_def)
qed

lemma expandRecurringEvents_eq:
  "expandRecurringEvents L e =
     e # map (generateRecurringEvent L e)
           (uniq (filter (\<lambda>r. r \<noteq> startTime (fields_ev e)) (resolvedStartTimes L e)))"
  by (simp add: expandRecurringEvents_def recurrenceStartTimes_def slice1_uniq_Cons)

lemma tl_expandRecurringEvents:
  "tl (expandRecurringEvents L e) =
     map (generateRecurringEvent L e)
       (uniq (filter (\<lambda>r. r \<noteq> startTime (fields_ev e)) (resolvedStartTimes L e)))"
  by (simp add: expandRecurringEvents_eq)

lemma set_uniq: "set (uniq xs) = set xs"
  by (simp add: uniq_def set_uniq_from)

lemma distinct_uniq: "distinct (uniq xs)"
  by (simp add: uniq_def distinct_uniq_from)

lemma length_uniq: "length (uniq xs) = card (set xs)"
proof -
  have "length (uniq xs) = card (set (uniq xs))"
    by (rule distinct_card [OF distinct_uniq, symmetric])
  then show ?thesis by (simp add: set_uniq)
qed

lemma length_expandRecurringEvents:
  "length (expandRecurringEvents L e) =
     1 + card (set (resolvedStartTimes L e) - {startTime (fields_ev e)})"
proof -
  have "set (filter (\<lambda>r. r \<noteq> startTime (fields_ev e)) (resolvedStartTimes L e))
          = set (resolvedStartTimes L e) - {startTime (fields_ev e)}"
    by auto
  then show ?thesis
    by (simp add: expandRecurringEvents_eq length_uniq)
qed

lemma occurrence_cases:
  assumes "occ \<in> set (tl (expandRecurringEvents L e))"
  shows "\<exists>r\<in>set (resolvedStartTimes L e).
           r \<noteq> startTime (fields_ev e) \<and> occ = generateRecurringEvent L e r"
  using assms by (auto simp: tl_expandRecurringEvents set_uniq)

subsection \<open>The sample event, expanded\<close>

lemmas date_eval =
  digit_val_def parse_number_def digit_char_def pad2_def pad4_def parse_stamp_def
  day_of_year_def days_of_era_year_def days_of_shifted_year_def days_from_civil_def
  civil_of_mp_def civil_of_doy_def civil_of_yoe_def civil_of_doe_def civil_from_days_def
  minutes_stamp_def invalid_date_def full_year_def

lemma nth_opt_numeral [simp]:
  "nth_opt (x # xs) (numeral k) = nth_opt xs (pred_numeral k)"
  by (simp add: numeral_eq_Suc)

lemma resolve_9:
  "recurrenceDateToStartTime spec_DateLib ''2018-01-09T11:00'' ''9/1/18'' = ''2018-01-09T11:00''"
  by (simp add: recurrenceDateToStartTime_def spec_DateLib_def date_eval)

lemma resolve_13:
  "recurrenceDateToStartTime spec_DateLib ''2018-01-09T11:00'' ''13/1/18'' = ''2018-01-13T11:00''"
  by (simp add: recurrenceDateToStartTime_def spec_DateLib_def date_eval)

lemma resolve_15:
  "recurrenceDateToStartTime spec_DateLib ''2018-01-09T11:00'' ''15/1/18'' = ''2018-01-15T11:00''"
  by (simp add: recurrenceDateToStartTime_def spec_DateLib_def date_eval)

lemmas resolve_sample = resolve_9 resolve_13 resolve_15

text \<open>The occurrences of the sample event on 13 and 15 January 2018.\<close>

lemma generate_13:
  "generateRecurringEvent spec_DateLib (sampleEvent rds) ''2018-01-13T11:00'' =
     (sampleEvent rds)
       \<lparr> id_ev := ''event1-recurrence-13/01/2018'',
         fields_ev := (fields_ev (sampleEvent rds))
           \<lparr> startTime := ''2018-01-13T11:00'', endTime := ''2018-01-13T13:00'',
             recurrenceDates := ''09/01/2018'' # rds \<rparr> \<rparr>"
  by (simp add: generateRecurringEvent_def formatEuropeanDate_def sampleEvent_def
        spec_DateLib_def date_eval)

lemma generate_15:
  "generateRecurringEvent spec_DateLib (sampleEvent rds) ''2018-01-15T11:00'' =
     (sampleEvent rds)
       \<lparr> id_ev := ''event1-recurrence-15/01/2018'',
         fields_ev := (fields_ev (sampleEvent rds))
           \<lparr> startTime := ''2018-01-15T11:00'', endTime := ''2018-01-15T13:00'',
             recurrenceDates := ''09/01/2018'' # rds \<rparr> \<rparr>"
  by (simp add: generateRecurringEvent_def formatEuropeanDate_def sampleEvent_def
        spec_DateLib_def date_eval)

lemma expand_sample_13_15:
  "expandRecurringEvents spec_DateLib (sampleEvent [''13/1/18'', ''15/1/18'']) =
     [sampleEvent [''13/1/18'', ''15/1/18''],
      generateRecurringEvent spec_DateLib (sampleEvent [''13/1/18'', ''15/1/18''])
        ''2018-01-13T11:00'',
      generateRecurringEvent spec_DateLib (sampleEvent [''13/1/18'', ''15/1/18''])
        ''2018-01-15T11:00'']"
proof -
  have "recurrenceStartTimes spec_DateLib (sampleEvent [''13/1/18'', ''15/1/18''])
          = [''2018-01-09T11:00'', ''2018-01-13T11:00'', ''2018-01-15T11:00'']"
    by (simp add: recurrenceStartTimes_def resolvedStartTimes_def sampleEvent_def
          resolve_sample)
  then show ?thesis
    by (simp add: expandRecurringEvents_def uniq_def slice1_def)
qed

lemma expand_sample_15_13:
  "expandRecurringEvents spec_DateLib (sampleEvent [''15/1/18'', ''13/1/18'']) =
     [sampleEvent [''15/1/18'', ''13/1/18''],
      generateRecurringEvent spec_DateLib (sampleEvent [''15/1/18'', ''13/1/18''])
        ''2018-01-15T11:00'',
      generateRecurringEvent spec_DateLib (sampleEvent [''15/1/18'', ''13/1/18''])
        ''2018-01-13T11:00'']"
proof -
  have "recurrenceStartTimes spec_DateLib (sampleEvent [''15/1/18'', ''13/1/18''])
          = [''2018-01-09T11:00'', ''2018-01-15T11:00'', ''2018-01-13T11:00'']"
    by (simp add: recurrenceStartTimes_def resolvedStartTimes_def sampleEvent_def
          resolve_sample)
  then show ?thesis
    by (simp add: expandRecurringEvents_def uniq_def slice1_def)
qed

text \<open>A recurrence date on the day of the original event, and one that is listed twice:
  the expansion has one occurrence beside the original.\<close>

lemma expand_sample_duplicates:
  "expandRecurringEvents spec_DateLib (sampleEvent [''9/1/18'', ''13/1/18'', ''13/1/18'']) =
     [sampleEvent [''9/1/18'', ''13/1/18'', ''13/1/18''],
      generateRecurringEvent spec_DateLib (sampleEvent [''9/1/18'', ''13/1/18'', ''13/1/18''])
        ''2018-01-13T11:00'']"
proof -
  have "recurrenceStartTimes spec_DateLib (sampleEvent [''9/1/18'', ''13/1/18'', ''13/1/18''])
          = [''2018-01-09T11:00'', ''2018-01-09T11:00'', ''2018-01-13T11:00'',
             ''2018-01-13T11:00'']"
    by (simp add: recurrenceStartTimes_def resolvedStartTimes_def sampleEvent_def
          resolve_sample)
  then show ?thesis
    by (simp add: expandRecurringEvents_def uniq_def slice1_def)
qed

lemma expand_sample_duplicates_length:
  "length (expandRecurringEvents spec_DateLib
             (sampleEvent [''9/1/18'', ''13/1/18'', ''13/1/18''])) = 2"
  by (simp add: expand_sample_duplicates)

subsection \<open>The claims about the expansion\<close>

text \<open>
  C1. An event without recurrence dates expands to itself alone: when
  \<open>e.fields.recurrenceDates\<close> is the empty list, \<open>expandRecurringEvents(e)\<close> is exactly
  the one-element list \<open>[e]\<close>, whatever the date library does.
\<close>

theorem expandRecurringEvents_no_recurrence:
  assumes "recurrenceDates (fields_ev e) = []"
  shows "expandRecurringEvents L e = [e]"
  using assms
  by (simp add: expandRecurringEvents_def recurrenceStartTimes_def resolvedStartTimes_def
        uniq_def slice1_def)

theorem expandRecurringEvents_no_recurrence_witness:
  "recurrenceDates (fields_ev (sampleEvent [])) = [] \<and>
   expandRecurringEvents spec_DateLib (sampleEvent []) = [sampleEvent []]"
proof -
  have h: "recurrenceDates (fields_ev (sampleEvent [])) = []"
    by (simp add: sampleEvent_def)
  from h expandRecurringEvents_no_recurrence [OF h, of spec_DateLib] show ?thesis
    by simp
qed

text \<open>
  C2. Deduplication: a recurrence date that resolves to the start time of the original
  event, or to the start time of another recurrence date, adds no occurrence. The
  occurrences after the original are generated from a list of resolved start times in
  which no start time stands twice and the start time of the original does not stand at
  all, and which holds every other resolved start time. So the length of
  \<open>expandRecurringEvents(e)\<close> is exactly, and hence at most, 1 plus the number of
  distinct resolved recurrence start times that differ from the start time of the
  original. (Start times are compared as strings, as \<open>R.uniq\<close> does.)
\<close>

theorem expandRecurringEvents_deduplicated:
  "expandRecurringEvents L e =
     e # map (generateRecurringEvent L e)
           (uniq (filter (\<lambda>r. r \<noteq> startTime (fields_ev e)) (resolvedStartTimes L e))) \<and>
   distinct (uniq (filter (\<lambda>r. r \<noteq> startTime (fields_ev e)) (resolvedStartTimes L e))) \<and>
   startTime (fields_ev e)
     \<notin> set (uniq (filter (\<lambda>r. r \<noteq> startTime (fields_ev e)) (resolvedStartTimes L e))) \<and>
   set (uniq (filter (\<lambda>r. r \<noteq> startTime (fields_ev e)) (resolvedStartTimes L e)))
     = set (resolvedStartTimes L e) - {startTime (fields_ev e)} \<and>
   length (expandRecurringEvents L e)
     = 1 + card (set (resolvedStartTimes L e) - {startTime (fields_ev e)}) \<and>
   length (expandRecurringEvents L e)
     \<le> 1 + card (set (resolvedStartTimes L e) - {startTime (fields_ev e)})"
proof -
  let ?rs = "uniq (filter (\<lambda>r. r \<noteq> startTime (fields_ev e)) (resolvedStartTimes L e))"
  have 1: "expandRecurringEvents L e = e # map (generateRecurringEvent L e) ?rs"
    by (rule expandRecurringEvents_eq)
  have 2: "distinct ?rs"
    by (rule distinct_uniq)
  have 3: "set ?rs = set (resolvedStartTimes L e) - {startTime (fields_ev e)}"
    by (auto simp: set_uniq)
  then have 4: "startTime (fields_ev e) \<notin> set ?rs"
    by simp
  have 5: "length (expandRecurringEvents L e)
             = 1 + card (set (resolvedStartTimes L e) - {startTime (fields_ev e)})"
    by (rule length_expandRecurringEvents)
  then have 6: "length (expandRecurringEvents L e)
                  \<le> 1 + card (set (resolvedStartTimes L e) - {startTime (fields_ev e)})"
    by simp
  from 1 2 3 4 5 6 show ?thesis by blast
qed

text \<open>The sample event with a recurrence date on its own day and one date listed twice:
  the original and one occurrence, that of the 13th.\<close>

theorem expandRecurringEvents_deduplicated_witness:
  "resolvedStartTimes spec_DateLib (sampleEvent [''9/1/18'', ''13/1/18'', ''13/1/18''])
     = [''2018-01-09T11:00'', ''2018-01-13T11:00'', ''2018-01-13T11:00''] \<and>
   expandRecurringEvents spec_DateLib (sampleEvent [''9/1/18'', ''13/1/18'', ''13/1/18''])
     = [sampleEvent [''9/1/18'', ''13/1/18'', ''13/1/18''],
        generateRecurringEvent spec_DateLib
          (sampleEvent [''9/1/18'', ''13/1/18'', ''13/1/18'']) ''2018-01-13T11:00''] \<and>
   length (expandRecurringEvents spec_DateLib
             (sampleEvent [''9/1/18'', ''13/1/18'', ''13/1/18''])) = 2"
proof -
  let ?e = "sampleEvent [''9/1/18'', ''13/1/18'', ''13/1/18'']"
  have st: "startTime (fields_ev ?e) = ''2018-01-09T11:00''"
    by (simp add: sampleEvent_def)
  have res: "resolvedStartTimes spec_DateLib ?e
               = [''2018-01-09T11:00'', ''2018-01-13T11:00'', ''2018-01-13T11:00'']"
    by (simp add: resolvedStartTimes_def sampleEvent_def resolve_sample)
  have rs: "uniq (filter (\<lambda>r. r \<noteq> startTime (fields_ev ?e))
                    (resolvedStartTimes spec_DateLib ?e)) = [''2018-01-13T11:00'']"
    by (simp add: res st uniq_def)
  have cd: "card (set (resolvedStartTimes spec_DateLib ?e) - {startTime (fields_ev ?e)}) = 1"
  proof -
    have "set (resolvedStartTimes spec_DateLib ?e) - {startTime (fields_ev ?e)}
            = {''2018-01-13T11:00''}"
      by (auto simp: res st)
    then show ?thesis by simp
  qed
  from expandRecurringEvents_deduplicated [of spec_DateLib ?e]
  have eq: "expandRecurringEvents spec_DateLib ?e =
              ?e # map (generateRecurringEvent spec_DateLib ?e)
                     (uniq (filter (\<lambda>r. r \<noteq> startTime (fields_ev ?e))
                              (resolvedStartTimes spec_DateLib ?e)))"
    and len: "length (expandRecurringEvents spec_DateLib ?e)
                = 1 + card (set (resolvedStartTimes spec_DateLib ?e)
                              - {startTime (fields_ev ?e)})"
    by blast+
  from eq have "expandRecurringEvents spec_DateLib ?e
                  = [?e, generateRecurringEvent spec_DateLib ?e ''2018-01-13T11:00'']"
    by (simp only: rs list.map)
  moreover from len have "length (expandRecurringEvents spec_DateLib ?e) = 2"
    by (simp only: cd)
  ultimately show ?thesis using res by blast
qed

text \<open>
  C3 (amended). \<open>expandRecurringEvents(e)\<close> is never empty and begins with the original
  event. It continues with one derived occurrence for each resolved recurrence start time
  that differs from the start time of the original, each such start time once, in the
  order in which these start times first appear in \<open>recurrenceDates\<close>. The occurrences
  are not sorted by date: the sample event with the recurrence dates 15/1/18 and 13/1/18,
  in this order, has its occurrence of the 15th before that of the 13th.
\<close>

theorem expandRecurringEvents_order:
  "expandRecurringEvents L e \<noteq> [] \<and>
   hd (expandRecurringEvents L e) = e \<and>
   tl (expandRecurringEvents L e) =
     map (generateRecurringEvent L e)
       (uniq (filter (\<lambda>r. r \<noteq> startTime (fields_ev e)) (resolvedStartTimes L e))) \<and>
   map (startTime \<circ> fields_ev) (tl (expandRecurringEvents L e)) =
     map (\<lambda>r. formatDate L r FORMAT_CONTENTFUL_ISO)
       (uniq (filter (\<lambda>r. r \<noteq> startTime (fields_ev e)) (resolvedStartTimes L e)))"
  by (simp add: expandRecurringEvents_eq generateRecurringEvent_def Let_def)

theorem expandRecurringEvents_not_chronological:
  "\<not> chronological
       (map (startTime \<circ> fields_ev)
          (tl (expandRecurringEvents spec_DateLib (sampleEvent [''15/1/18'', ''13/1/18'']))))"
proof -
  have "map (startTime \<circ> fields_ev)
          (tl (expandRecurringEvents spec_DateLib (sampleEvent [''15/1/18'', ''13/1/18''])))
        = [''2018-01-15T11:00'', ''2018-01-13T11:00'']"
    by (simp add: expand_sample_15_13 generate_13 generate_15)
  moreover have "\<not> chronological [''2018-01-15T11:00'', ''2018-01-13T11:00'']"
    by (simp add: chronological_def instant_def date_eval)
  ultimately show ?thesis by simp
qed

text \<open>
  C4. Every derived occurrence of \<open>expandRecurringEvents(e)\<close> comes from a resolved
  recurrence start time \<open>r\<close>: its start time is \<open>r\<close> in the storage format, and its end time
  is the original end time moved by the difference between \<open>r\<close> and the original start
  time, in the storage format. So, on any time line on which the date library's \<open>diff\<close>,
  \<open>add\<close> and \<open>toFormat\<close> are exact for the dates of this event (\<open>offset_laws\<close>), end minus
  start of the occurrence is end minus start of the original.
\<close>

theorem occurrence_keeps_duration:
  assumes "occ \<in> set (tl (expandRecurringEvents L e))"
    and "\<forall>r\<in>set (resolvedStartTimes L e).
           offset_laws L pos r (startTime (fields_ev e)) (endTime (fields_ev e))"
  shows "(\<exists>r\<in>set (resolvedStartTimes L e).
            startTime (fields_ev occ) = formatDate L r FORMAT_CONTENTFUL_ISO \<and>
            endTime (fields_ev occ) =
              formatDate L
                (addToDate L (endTime (fields_ev e)) (diffDate L r (startTime (fields_ev e))))
                FORMAT_CONTENTFUL_ISO) \<and>
         pos (endTime (fields_ev occ)) - pos (startTime (fields_ev occ))
           = pos (endTime (fields_ev e)) - pos (startTime (fields_ev e))"
proof -
  from occurrence_cases [OF assms(1)] obtain r
    where r: "r \<in> set (resolvedStartTimes L e)" and occ: "occ = generateRecurringEvent L e r"
    by blast
  have st: "startTime (fields_ev occ) = formatDate L r FORMAT_CONTENTFUL_ISO"
    by (simp add: occ generateRecurringEvent_def Let_def)
  have en: "endTime (fields_ev occ) =
              formatDate L
                (addToDate L (endTime (fields_ev e)) (diffDate L r (startTime (fields_ev e))))
                FORMAT_CONTENTFUL_ISO"
    by (simp add: occ generateRecurringEvent_def Let_def)
  from assms(2) r
  have laws: "offset_laws L pos r (startTime (fields_ev e)) (endTime (fields_ev e))"
    by blast
  have "pos (endTime (fields_ev occ)) - pos (startTime (fields_ev occ))
          = pos (endTime (fields_ev e)) - pos (startTime (fields_ev e))"
    using laws unfolding st en offset_laws_def by linarith
  with r st en show ?thesis by blast
qed

theorem occurrence_keeps_duration_witness:
  "generateRecurringEvent spec_DateLib (sampleEvent [''13/1/18'', ''15/1/18''])
       ''2018-01-13T11:00''
     \<in> set (tl (expandRecurringEvents spec_DateLib (sampleEvent [''13/1/18'', ''15/1/18'']))) \<and>
   resolvedStartTimes spec_DateLib (sampleEvent [''13/1/18'', ''15/1/18''])
     = [''2018-01-13T11:00'', ''2018-01-15T11:00''] \<and>
   offset_laws spec_DateLib instant ''2018-01-13T11:00''
     ''2018-01-09T11:00'' ''2018-01-09T13:00'' \<and>
   offset_laws spec_DateLib instant ''2018-01-15T11:00''
     ''2018-01-09T11:00'' ''2018-01-09T13:00'' \<and>
   instant ''2018-01-13T13:00'' - instant ''2018-01-13T11:00''
     = instant ''2018-01-09T13:00'' - instant ''2018-01-09T11:00''"
proof -
  let ?e = "sampleEvent [''13/1/18'', ''15/1/18'']"
  let ?occ = "generateRecurringEvent spec_DateLib ?e ''2018-01-13T11:00''"
  have h1: "?occ \<in> set (tl (expandRecurringEvents spec_DateLib ?e))"
    by (simp add: expand_sample_13_15)
  have st: "startTime (fields_ev ?e) = ''2018-01-09T11:00''"
    and en: "endTime (fields_ev ?e) = ''2018-01-09T13:00''"
    by (simp_all add: sampleEvent_def)
  have res: "resolvedStartTimes spec_DateLib ?e = [''2018-01-13T11:00'', ''2018-01-15T11:00'']"
    by (simp add: resolvedStartTimes_def sampleEvent_def resolve_sample)
  have l13: "offset_laws spec_DateLib instant ''2018-01-13T11:00''
               ''2018-01-09T11:00'' ''2018-01-09T13:00''"
    by (simp add: offset_laws_def spec_DateLib_def instant_def date_eval)
  have l15: "offset_laws spec_DateLib instant ''2018-01-15T11:00''
               ''2018-01-09T11:00'' ''2018-01-09T13:00''"
    by (simp add: offset_laws_def spec_DateLib_def instant_def date_eval)
  have h2: "\<forall>r\<in>set (resolvedStartTimes spec_DateLib ?e).
              offset_laws spec_DateLib instant r
                (startTime (fields_ev ?e)) (endTime (fields_ev ?e))"
    by (simp add: res st en l13 l15)
  have occ_st: "startTime (fields_ev ?occ) = ''2018-01-13T11:00''"
    and occ_en: "endTime (fields_ev ?occ) = ''2018-01-13T13:00''"
    by (simp_all add: generate_13)
  from occurrence_keeps_duration [OF h1 h2]
  have "instant (endTime (fields_ev ?occ)) - instant (startTime (fields_ev ?occ))
          = instant (endTime (fields_ev ?e)) - instant (startTime (fields_ev ?e))"
    by blast
  then have "instant ''2018-01-13T13:00'' - instant ''2018-01-13T11:00''
               = instant ''2018-01-09T13:00'' - instant ''2018-01-09T11:00''"
    by (simp only: occ_st occ_en st en)
  with h1 res l13 l15 show ?thesis by (simp only: simp_thms)
qed

text \<open>
  C5. Every derived occurrence of \<open>expandRecurringEvents(e)\<close> comes from a resolved
  recurrence start time \<open>r\<close>, which is its own start time (in the storage format). Its id
  is the id of the original, then \<open>-recurrence-\<close>, then \<open>r\<close> in the European display
  format; its \<open>recurrenceDates\<close> are the start time of the original in the display format,
  put in front of the \<open>recurrenceDates\<close> of the original.
\<close>

theorem occurrence_id_and_recurrenceDates:
  assumes "occ \<in> set (tl (expandRecurringEvents L e))"
  shows "\<exists>r\<in>set (resolvedStartTimes L e).
           startTime (fields_ev occ) = formatDate L r FORMAT_CONTENTFUL_ISO \<and>
           id_ev occ = id_ev e @ ''-recurrence-'' @ formatDate L r FORMAT_EUROPEAN_DATE \<and>
           recurrenceDates (fields_ev occ) =
             formatDate L (startTime (fields_ev e)) FORMAT_EUROPEAN_DATE
               # recurrenceDates (fields_ev e)"
proof -
  from occurrence_cases [OF assms] obtain r
    where r: "r \<in> set (resolvedStartTimes L e)" and occ: "occ = generateRecurringEvent L e r"
    by blast
  have "startTime (fields_ev occ) = formatDate L r FORMAT_CONTENTFUL_ISO"
    and "id_ev occ = id_ev e @ ''-recurrence-'' @ formatDate L r FORMAT_EUROPEAN_DATE"
    and "recurrenceDates (fields_ev occ) =
           formatDate L (startTime (fields_ev e)) FORMAT_EUROPEAN_DATE
             # recurrenceDates (fields_ev e)"
    by (simp_all add: occ generateRecurringEvent_def formatEuropeanDate_def Let_def)
  with r show ?thesis by blast
qed

theorem occurrence_id_and_recurrenceDates_witness:
  "generateRecurringEvent spec_DateLib (sampleEvent [''13/1/18'', ''15/1/18''])
       ''2018-01-15T11:00''
     \<in> set (tl (expandRecurringEvents spec_DateLib (sampleEvent [''13/1/18'', ''15/1/18'']))) \<and>
   (\<exists>r\<in>{''2018-01-13T11:00'', ''2018-01-15T11:00''}.
      ''2018-01-15T11:00'' = formatDate spec_DateLib r FORMAT_CONTENTFUL_ISO \<and>
      ''event1-recurrence-15/01/2018''
        = ''event1'' @ ''-recurrence-'' @ formatDate spec_DateLib r FORMAT_EUROPEAN_DATE \<and>
      [''09/01/2018'', ''13/1/18'', ''15/1/18'']
        = formatDate spec_DateLib ''2018-01-09T11:00'' FORMAT_EUROPEAN_DATE
            # [''13/1/18'', ''15/1/18''])"
proof -
  let ?e = "sampleEvent [''13/1/18'', ''15/1/18'']"
  let ?occ = "generateRecurringEvent spec_DateLib ?e ''2018-01-15T11:00''"
  have h: "?occ \<in> set (tl (expandRecurringEvents spec_DateLib ?e))"
    by (simp add: expand_sample_13_15)
  have res: "set (resolvedStartTimes spec_DateLib ?e)
               = {''2018-01-13T11:00'', ''2018-01-15T11:00''}"
    by (simp add: resolvedStartTimes_def sampleEvent_def resolve_sample)
  have e_vals: "id_ev ?e = ''event1''" "startTime (fields_ev ?e) = ''2018-01-09T11:00''"
    "recurrenceDates (fields_ev ?e) = [''13/1/18'', ''15/1/18'']"
    by (simp_all add: sampleEvent_def)
  have occ_vals: "startTime (fields_ev ?occ) = ''2018-01-15T11:00''"
    "id_ev ?occ = ''event1-recurrence-15/01/2018''"
    "recurrenceDates (fields_ev ?occ) = [''09/01/2018'', ''13/1/18'', ''15/1/18'']"
    by (simp_all add: generate_15)
  from occurrence_id_and_recurrenceDates [OF h] h show ?thesis
    by (simp only: res e_vals occ_vals simp_thms)
qed

text \<open>
  C6. For every event, with or without recurrence dates, \<open>expandRecurringEvents(e)\<close> is
  not empty and its first element is the original event, unchanged. A derived occurrence
  differs from the original in \<open>id\<close> and in the fields \<open>startTime\<close>, \<open>endTime\<close> and
  \<open>recurrenceDates\<close> only: its \<open>contentType\<close>, \<open>locale\<close> and \<open>revision\<close> are those of
  the original, and putting the three original values back into its \<open>fields\<close> gives the
  \<open>fields\<close> of the original, so every other field is equal.
\<close>

theorem occurrence_frame:
  "expandRecurringEvents L e \<noteq> [] \<and>
   hd (expandRecurringEvents L e) = e \<and>
   (\<forall>occ\<in>set (tl (expandRecurringEvents L e)).
      contentType occ = contentType e \<and>
      locale_ev occ = locale_ev e \<and>
      revision occ = revision e \<and>
      (fields_ev occ)
        \<lparr> startTime := startTime (fields_ev e),
          endTime := endTime (fields_ev e),
          recurrenceDates := recurrenceDates (fields_ev e) \<rparr> = fields_ev e)"
proof -
  have ne: "expandRecurringEvents L e \<noteq> []" and hd: "hd (expandRecurringEvents L e) = e"
    by (simp_all add: expandRecurringEvents_eq)
  have fr: "contentType occ = contentType e \<and>
            locale_ev occ = locale_ev e \<and>
            revision occ = revision e \<and>
            (fields_ev occ)
              \<lparr> startTime := startTime (fields_ev e),
                endTime := endTime (fields_ev e),
                recurrenceDates := recurrenceDates (fields_ev e) \<rparr> = fields_ev e"
    if "occ \<in> set (tl (expandRecurringEvents L e))" for occ
  proof -
    from occurrence_cases [OF that] obtain r
      where occ: "occ = generateRecurringEvent L e r"
      by blast
    show ?thesis
      by (simp add: occ generateRecurringEvent_def Let_def)
  qed
  from ne hd fr show ?thesis by blast
qed

text \<open>The original comes first for the sample event without recurrence dates, too; the
  occurrence of the 13th keeps the name of the original.\<close>

theorem occurrence_frame_witness:
  "expandRecurringEvents spec_DateLib (sampleEvent []) \<noteq> [] \<and>
   hd (expandRecurringEvents spec_DateLib (sampleEvent [])) = sampleEvent [] \<and>
   generateRecurringEvent spec_DateLib (sampleEvent [''9/1/18'', ''13/1/18'', ''13/1/18''])
       ''2018-01-13T11:00''
     \<in> set (tl (expandRecurringEvents spec_DateLib
                  (sampleEvent [''9/1/18'', ''13/1/18'', ''13/1/18'']))) \<and>
   hd (expandRecurringEvents spec_DateLib (sampleEvent [''9/1/18'', ''13/1/18'', ''13/1/18'']))
     = sampleEvent [''9/1/18'', ''13/1/18'', ''13/1/18''] \<and>
   name (fields_ev (generateRecurringEvent spec_DateLib
                      (sampleEvent [''9/1/18'', ''13/1/18'', ''13/1/18''])
                      ''2018-01-13T11:00'')) = ''Pride in the Park''"
proof -
  let ?e = "sampleEvent [''9/1/18'', ''13/1/18'', ''13/1/18'']"
  let ?occ = "generateRecurringEvent spec_DateLib ?e ''2018-01-13T11:00''"
  from occurrence_frame [of spec_DateLib "sampleEvent []"]
  have plain: "expandRecurringEvents spec_DateLib (sampleEvent []) \<noteq> []"
    "hd (expandRecurringEvents spec_DateLib (sampleEvent [])) = sampleEvent []"
    by blast+
  have h: "?occ \<in> set (tl (expandRecurringEvents spec_DateLib ?e))"
    by (simp add: expand_sample_duplicates)
  from occurrence_frame [of spec_DateLib ?e] h
  have hd: "hd (expandRecurringEvents spec_DateLib ?e) = ?e"
    and fr: "(fields_ev ?occ)
           \<lparr> startTime := startTime (fields_ev ?e),
             endTime := endTime (fields_ev ?e),
             recurrenceDates := recurrenceDates (fields_ev ?e) \<rparr> = fields_ev ?e"
    by blast+
  have "name (fields_ev ?occ)
          = name ((fields_ev ?occ)
           \<lparr> startTime := startTime (fields_ev ?e),
             endTime := endTime (fields_ev ?e),
             recurrenceDates := recurrenceDates (fields_ev ?e) \<rparr>)"
    by simp
  also have "\<dots> = name (fields_ev ?e)"
    by (simp only: fr)
  also have "\<dots> = ''Pride in the Park''"
    by (simp add: sampleEvent_def)
  finally show ?thesis using plain h hd by simp
qed

section \<open>Properties of the event decoder\<close>

subsection \<open>Success and failure of the combinators\<close>

lemma shape_key_Inr_iff: "shape_key r f = Inr y \<longleftrightarrow> (\<exists>a. r = Inr a \<and> f a = Inr y)"
  by (cases r) auto

lemma under_Inr_iff: "under_path p r = Inr a \<longleftrightarrow> r = Inr a"
proof (cases r)
  case (Inl e)
  then show ?thesis by (cases e) simp
next
  case (Inr b)
  then show ?thesis by simp
qed

lemma decode_at_Inr_iff:
  "decode_at path d v = Inr a \<longleftrightarrow> (\<exists>x. follow path v = Some x \<and> d x = Inr a)"
  by (auto simp: decode_at_def under_Inr_iff split: option.splits)

lemma decode_field_Inr_iff:
  "decode_field k d v = Inr a \<longleftrightarrow> (\<exists>x. get_field v k = Some x \<and> d x = Inr a)"
  by (auto simp: decode_field_def under_Inr_iff split: option.splits)

lemma decode_string_Inr_iff: "decode_string x = Inr s \<longleftrightarrow> x = JStr s"
  by (cases x) auto

lemma decode_number_Inr_iff: "decode_number x = Inr n \<longleftrightarrow> x = JNum n"
  by (cases x) auto

lemma decode_value_Inr_iff: "decode_value l v = Inr s \<longleftrightarrow> v = JStr l \<and> s = l"
  by (auto simp: decode_value_def)

lemma decode_oneOf_values:
  "decode_oneOf (map decode_value names) v = Inr s \<Longrightarrow> v = JStr s \<and> s \<in> set names"
  by (induction names) (auto simp: decode_value_Inr_iff split: sum.splits)

lemma decode_elements_all:
  "decode_elements d i xs = Inr ys \<Longrightarrow> list_all (\<lambda>x. succeeded (d x)) xs"
proof (induction xs arbitrary: i ys)
  case Nil
  show ?case by simp
next
  case (Cons x xs)
  then show ?case
    by (cases "d x"; cases "decode_elements d (Suc i) xs") (auto simp: under_Inr_iff)
qed

lemma decode_categories:
  assumes "decode_array decodeEventCategoryName x = Inr cs"
  shows "is_categories (Some x)"
proof (cases x)
  case (JArr xs)
  with assms have "list_all (\<lambda>x. succeeded (decodeEventCategoryName x)) xs"
    by (auto dest: decode_elements_all)
  moreover have "succeeded (decodeEventCategoryName y) \<Longrightarrow> y \<in> JStr ` set eventCategoryNames" for y :: "'a json"
  proof -
    assume "succeeded (decodeEventCategoryName y)"
    then obtain s where "decodeEventCategoryName y = Inr s"
      by (cases "decodeEventCategoryName y :: DecodeError + string") auto
    then show ?thesis
      unfolding decodeEventCategoryName_def by (auto dest: decode_oneOf_values)
  qed
  ultimately show ?thesis using JArr by (auto simp: list_all_iff)
qed (use assms in auto)

lemma decodeLocation_ok: "decodeLocation x = Inr l \<Longrightarrow> is_location (Some x)"
  by (auto simp: decodeLocation_def shape_key_Inr_iff decode_field_Inr_iff decode_number_Inr_iff)

lemma decodeEventFields_required:
  assumes "decodeEventFields dfr locale v = Inr fs"
  shows "is_string (follow [''name'', locale] v)"
    and "is_categories (follow [''eventCategories'', locale] v)"
    and "is_string (follow [''startTime'', locale] v)"
    and "is_string (follow [''endTime'', locale] v)"
    and "is_location (follow [''location'', locale] v)"
    and "is_string (follow [''locationName'', locale] v)"
    and "is_number (follow [''eventPriceLow'', locale] v)"
    and "is_number (follow [''eventPriceHigh'', locale] v)"
    and "is_string (follow [''eventDescription'', locale] v)"
    and "is_ref dfr (follow [''individualEventPicture'', locale] v)"
    and "is_ref dfr (follow [''eventsListPicture'', locale] v)"
  using assms unfolding decodeEventFields_def shape_key_Inr_iff decode_at_Inr_iff
  by (auto simp: decode_string_Inr_iff decode_number_Inr_iff
       dest: decode_categories decodeLocation_ok)


lemma decodeEvent_required:
  assumes "decodeEvent dfr locale raw = Inr ev"
  shows "required_ok dfr locale raw"
proof -
  from assms obtain fv fs
    where ct: "follow [''sys'', ''contentType'', ''sys'', ''id''] raw = Some (JStr ''event'')"
      and i: "is_string (follow [''sys'', ''id''] raw)"
      and r: "is_number (follow [''sys'', ''revision''] raw)"
      and fv: "get_field raw ''fields'' = Some fv"
      and fs: "decodeEventFields dfr locale fv = Inr fs"
    unfolding decodeEvent_def shape_key_Inr_iff decode_at_Inr_iff decode_field_Inr_iff
    by (auto simp: decode_string_Inr_iff decode_number_Inr_iff decode_value_Inr_iff)
  have below: "follow (''fields'' # p) raw = follow p fv" for p
    by (simp add: fv)
  from decodeEventFields_required [OF fs] ct i r show ?thesis
    unfolding required_ok_def below by simp
qed

lemma path_qualified_under: "p \<noteq> [] \<Longrightarrow> path_qualified (under_path p r)"
proof (cases r)
  case (Inl e)
  assume "p \<noteq> []"
  with Inl show ?thesis by (cases e) simp
next
  case (Inr a)
  then show ?thesis by simp
qed

lemma path_qualified_decode_at: "path \<noteq> [] \<Longrightarrow> path_qualified (decode_at path d v)"
  by (simp add: decode_at_def path_qualified_under split: option.splits)

lemma path_qualified_decode_field: "path_qualified (decode_field k d v)"
  by (simp add: decode_field_def path_qualified_under split: option.splits)

lemma path_qualified_shape_key:
  "path_qualified r \<Longrightarrow> (\<And>a. path_qualified (f a)) \<Longrightarrow> path_qualified (shape_key r f)"
  by (cases r) auto

lemma path_qualified_decodeEvent: "path_qualified (decodeEvent dfr locale raw)"
  unfolding decodeEvent_def
  by (intro path_qualified_shape_key path_qualified_decode_at path_qualified_decode_field)
     (simp_all add: decode_succeed_def)

subsection \<open>The sample entry, decoded\<close>

lemmas decode_eval = decodeEvent_def decodeEventFields_def decodeLocation_def
  decodeEventCategoryName_def eventCategoryNames_def maybeField_def maybeFieldWithDefault_def
  decode_at_def decode_field_def decode_map_def decode_maybe_def decode_value_def
  decode_succeed_def sampleFieldRef_def localized_def sampleAsset_def

lemma decode_elements_strings: "decode_elements decode_string i (map JStr xs) = Inr xs"
  by (induction xs arbitrary: i) simp_all

lemma sample_ok:
  "decodeEvent sampleFieldRef ''en-GB'' (sampleRaw ''event'' [''Community'', ''Music''] rds)
     = Inr (sampleEvent rds)"
  by (simp add: sampleRaw_def sampleEvent_def decode_eval decode_elements_strings)

lemma sample_bad_ct:
  "decodeEvent sampleFieldRef ''en-GB'' (sampleRaw ''venue'' [''Community'', ''Music''] rds)
     = Inl (DecodeError [Key ''sys'', Key ''contentType'', Key ''sys'', Key ''id''] (Mismatch ''event''))"
  by (simp add: sampleRaw_def decode_eval)

lemma sample_bad_cat:
  "decodeEvent sampleFieldRef ''en-GB'' (sampleRaw ''event'' [''Community'', ''Opera''] [])
     = Inl (DecodeError [Key ''fields'', Key ''eventCategories'', Key ''en-GB'', Index 1] NoneMatched)"
  by (simp add: sampleRaw_def decode_eval)

subsection \<open>The claims about the decoder\<close>

text \<open>
  C7. When the \<open>eventCategories\<close> of a raw entry at the locale are an array that contains
  a string outside the eleven category names, \<open>decodeEvent(locale)\<close> fails with a decode
  error: there is no decoded event, so the value is not dropped silently. This holds for
  every decoder of field references.
\<close>

theorem decodeEvent_rejects_unknown_category:
  assumes "follow [''fields'', ''eventCategories'', locale] raw = Some (JArr xs)"
    and "JStr s \<in> set xs"
    and "s \<notin> set eventCategoryNames"
  shows "\<exists>err. decodeEvent dfr locale raw = Inl err"
proof (cases "decodeEvent dfr locale raw")
  case (Inl err)
  then show ?thesis by blast
next
  case (Inr ev)
  then have "is_categories (follow [''fields'', ''eventCategories'', locale] raw)"
    by (auto dest: decodeEvent_required simp: required_ok_def)
  with assms have False
    by (auto simp: list_all_iff)
  then show ?thesis ..
qed

theorem decodeEvent_rejects_unknown_category_witness:
  "follow [''fields'', ''eventCategories'', ''en-GB'']
       (sampleRaw ''event'' [''Community'', ''Opera''] [])
     = Some (JArr [JStr ''Community'', JStr ''Opera'']) \<and>
   JStr ''Opera'' \<in> set [JStr ''Community'', JStr ''Opera'' :: int json] \<and>
   ''Opera'' \<notin> set eventCategoryNames \<and>
   (\<exists>err. decodeEvent sampleFieldRef ''en-GB''
             (sampleRaw ''event'' [''Community'', ''Opera''] []) = Inl err)"
proof -
  have h1: "follow [''fields'', ''eventCategories'', ''en-GB'']
              (sampleRaw ''event'' [''Community'', ''Opera''] [])
            = Some (JArr [JStr ''Community'', JStr ''Opera''])"
    by (simp add: sampleRaw_def localized_def)
  have h2: "JStr ''Opera'' \<in> set [JStr ''Community'', JStr ''Opera'' :: int json]"
    by simp
  have h3: "''Opera'' \<notin> set eventCategoryNames"
    by (simp add: eventCategoryNames_def)
  from decodeEvent_rejects_unknown_category [OF h1 h2 h3, of sampleFieldRef] h1 h2 h3
  show ?thesis by blast
qed

text \<open>
  C8. \<open>decodeEvent(locale)\<close> is all-or-nothing. Its result is a failure or a whole event,
  never a part of one. When the entry is not as required (\<open>required_ok\<close>: the content
  type at \<open>sys.contentType.sys.id\<close> is not \<open>event\<close>, or \<open>sys.id\<close>, \<open>sys.revision\<close> or one of
  the fields read without \<open>maybe\<close> is missing or of the wrong type), the decode fails, and
  the failure carries a path that is not empty.
\<close>

theorem decodeEvent_all_or_nothing:
  assumes "\<not> required_ok dfr locale raw"
  shows "\<exists>err. decodeEvent dfr locale raw = Inl err \<and> err_path err \<noteq> []"
proof (cases "decodeEvent dfr locale raw")
  case (Inl err)
  with path_qualified_decodeEvent [of dfr _ raw] show ?thesis
    by (metis path_qualified.simps(1))
next
  case (Inr ev)
  with assms decodeEvent_required show ?thesis by blast
qed

theorem decodeEvent_all_or_nothing_witness:
  "\<not> required_ok sampleFieldRef ''en-GB'' (sampleRaw ''venue'' [''Community'', ''Music''] []) \<and>
   (\<exists>err. decodeEvent sampleFieldRef ''en-GB''
             (sampleRaw ''venue'' [''Community'', ''Music''] []) = Inl err \<and>
          err_path err \<noteq> [])"
proof -
  have h: "\<not> required_ok sampleFieldRef ''en-GB''
               (sampleRaw ''venue'' [''Community'', ''Music''] [])"
    by (simp add: required_ok_def sampleRaw_def)
  from decodeEvent_all_or_nothing [OF h] h show ?thesis by blast
qed

section \<open>Properties of the event filters\<close>

lemma buildEventFilter_iff:
  "buildEventFilter bdrf btf state staged ev \<longleftrightarrow>
     (case selectDateFilter state staged of None \<Rightarrow> True | Some r \<Rightarrow> bdrf r ev) \<and>
     (selectTimeFilter state staged = {} \<or> selectTimeFilter state staged = allTimes \<or>
      (\<exists>t\<in>selectTimeFilter state staged. btf t ev))"
  by (cases "selectDateFilter state staged") (auto simp: buildEventFilter_def timeComponent_def)

lemma sample_select:
  "selectDateFilter (sampleState d t) staged = d"
  "selectTimeFilter (sampleState d t) staged = t"
  by (simp_all add: selectDateFilter_def selectTimeFilter_def chosenFilters_def sampleState_def)

text \<open>
  C9 (amended). When the chosen date filter is \<open>null\<close> and the chosen set of time buckets
  is empty or is the full set, the predicate of \<open>buildEventFilter\<close> accepts every event.
  In every case the predicate is the conjunction of a date component, which is always
  true when the date filter is \<open>null\<close> and is \<open>buildDateRangeFilter(date)\<close> otherwise, and a
  time component, which is always true when the set of buckets is empty or full and is
  otherwise true iff the event matches at least one bucket of the set. As worded, the
  claim made the time component ``matches at least one bucket'' whenever the date filter
  is set: with a date filter and no bucket chosen, the predicate accepts the events of
  the date range, and the wording rejects them all.
\<close>

theorem buildEventFilter_components:
  "(selectDateFilter state staged = None \<and>
      (selectTimeFilter state staged = {} \<or> selectTimeFilter state staged = allTimes)
      \<longrightarrow> buildEventFilter bdrf btf state staged ev) \<and>
   (buildEventFilter bdrf btf state staged ev \<longleftrightarrow>
     (case selectDateFilter state staged of None \<Rightarrow> True | Some r \<Rightarrow> bdrf r ev) \<and>
     (selectTimeFilter state staged = {} \<or> selectTimeFilter state staged = allTimes \<or>
      (\<exists>t\<in>selectTimeFilter state staged. btf t ev)))"
  using buildEventFilter_iff [of bdrf btf state staged ev] by auto

theorem buildEventFilter_components_witness:
  "selectDateFilter (sampleState None allTimes) None = None \<and>
   selectTimeFilter (sampleState None allTimes) None = allTimes \<and>
   buildEventFilter (mockDateRangeFilter False) (mockTimeFilter False)
     (sampleState None allTimes) None ()"
proof -
  have h: "selectDateFilter (sampleState None allTimes) None = None"
    "selectTimeFilter (sampleState None allTimes) None = allTimes"
    by (simp_all add: sample_select)
  from buildEventFilter_components
         [of "sampleState None allTimes" None "mockDateRangeFilter False" "mockTimeFilter False" "()"] h
  show ?thesis by blast
qed

theorem buildEventFilter_not_worded:
  "selectDateFilter (sampleState (Some sampleRange) {}) None \<noteq> None \<and>
   buildEventFilter (mockDateRangeFilter True) (mockTimeFilter True)
     (sampleState (Some sampleRange) {}) None () \<and>
   \<not> worded_otherwise (mockDateRangeFilter True) (mockTimeFilter True)
       (sampleState (Some sampleRange) {}) None ()"
  by (simp add: buildEventFilter_def worded_otherwise_def timeComponent_def sample_select
        mockDateRangeFilter_def)

section \<open>Properties of the filter modal\<close>

lemma toggleTagFilter_result:
  "toggleTagFilter s v st =
     (next_ref st,
      st \<lparr> elements := (elements st)
             (next_ref st :=
                (if v \<in> set (elements st s) then removeAll v (uniq (elements st s))
                 else uniq (elements st s) @ [v])),
           next_ref := Suc (next_ref st) \<rparr>)"
  by (simp add: toggleTagFilter_def new_Set_def spread_def Set_delete_def Set_add_def set_uniq)

text \<open>
  C10. \<open>toggleTagFilter(s, v)\<close> returns a new \<open>Set\<close>: its reference differs from that of
  \<open>s\<close>, and the elements of \<open>s\<close> are after the call what they were before, so the input
  is not mutated. The new \<open>Set\<close> is \<open>s\<close> without \<open>v\<close> if \<open>v\<close> was a member, and \<open>s\<close> with
  \<open>v\<close> if it was not. Toggling the result with the same \<open>v\<close> again gives a \<open>Set\<close> equal,
  as a set, to \<open>s\<close>, and \<open>s\<close> is still untouched.
\<close>

theorem toggleTagFilter_toggles:
  assumes "s < next_ref st"
    and "toggleTagFilter s v st = (r, st')"
    and "toggleTagFilter r v st' = (r2, st'')"
  shows "r \<noteq> s \<and>
         elements st' s = elements st s \<and>
         elements st'' s = elements st s \<and>
         set (elements st' r) =
           (if v \<in> set (elements st s) then set (elements st s) - {v}
            else insert v (set (elements st s))) \<and>
         set (elements st'' r2) = set (elements st s)"
proof -
  from assms(2) have r: "r = next_ref st"
    and st': "st' = st \<lparr> elements := (elements st)
             (next_ref st :=
                (if v \<in> set (elements st s) then removeAll v (uniq (elements st s))
                 else uniq (elements st s) @ [v])),
           next_ref := Suc (next_ref st) \<rparr>"
    unfolding toggleTagFilter_result by blast+
  from assms(3) have r2: "r2 = next_ref st'"
    and st'': "st'' = st' \<lparr> elements := (elements st')
             (next_ref st' :=
                (if v \<in> set (elements st' r) then removeAll v (uniq (elements st' r))
                 else uniq (elements st' r) @ [v])),
           next_ref := Suc (next_ref st') \<rparr>"
    unfolding toggleTagFilter_result by blast+
  have 1: "r \<noteq> s" using assms(1) r by simp
  have 2: "elements st' s = elements st s" using 1 r st' by simp
  have n: "next_ref st' = Suc (next_ref st)" using st' by simp
  have 3: "elements st'' s = elements st s" using assms(1) 2 n st'' by simp
  have 4: "set (elements st' r) =
           (if v \<in> set (elements st s) then set (elements st s) - {v}
            else insert v (set (elements st s)))"
    using r st' by (auto simp: set_uniq)
  have "set (elements st'' r2) =
           (if v \<in> set (elements st' r) then set (elements st' r) - {v}
            else insert v (set (elements st' r)))"
    using r2 st'' by (auto simp: set_uniq)
  with 4 have 5: "set (elements st'' r2) = set (elements st s)"
    by auto
  from 1 2 3 4 5 show ?thesis by blast
qed

theorem toggleTagFilter_toggles_witness:
  "0 < next_ref (sampleStore [''Music'', ''Health'']) \<and>
   fst (toggleTagFilter 0 ''Music'' (sampleStore [''Music'', ''Health''])) \<noteq> 0 \<and>
   elements (snd (toggleTagFilter 0 ''Music'' (sampleStore [''Music'', ''Health'']))) 0
     = [''Music'', ''Health''] \<and>
   set (elements (snd (toggleTagFilter 0 ''Music'' (sampleStore [''Music'', ''Health''])))
          (fst (toggleTagFilter 0 ''Music'' (sampleStore [''Music'', ''Health'']))))
     = {''Health''} \<and>
   set (elements
          (snd (toggleTagFilter
                  (fst (toggleTagFilter 0 ''Music'' (sampleStore [''Music'', ''Health'']))) ''Music''
                  (snd (toggleTagFilter 0 ''Music'' (sampleStore [''Music'', ''Health''])))))
          (fst (toggleTagFilter
                  (fst (toggleTagFilter 0 ''Music'' (sampleStore [''Music'', ''Health'']))) ''Music''
                  (snd (toggleTagFilter 0 ''Music'' (sampleStore [''Music'', ''Health'']))))))
     = {''Music'', ''Health''}"
proof -
  let ?st = "sampleStore [''Music'', ''Health'']"
  let ?t1 = "toggleTagFilter 0 ''Music'' ?st"
  let ?t2 = "toggleTagFilter (fst ?t1) ''Music'' (snd ?t1)"
  have h: "0 < next_ref ?st"
    by (simp add: sampleStore_def)
  have e1: "?t1 = (fst ?t1, snd ?t1)" and e2: "?t2 = (fst ?t2, snd ?t2)"
    by simp_all
  have el: "elements ?st 0 = [''Music'', ''Health'']"
    by (simp add: sampleStore_def)
  from toggleTagFilter_toggles [OF h e1 e2] h show ?thesis
    unfolding el by auto
qed

end
